theory Spec2Isabelle
  imports Complex_Main "HOL-Library.Word" "HOL-Library.Monad_Syntax"
begin

unbundle bit_operations_syntax

section \<open>Conventions of the embedding\<close>

text \<open>
  The program is a single C++ file, \<^verbatim>\<open>src/main.cpp\<close>: a grid raycaster with a small
  combat simulation. The embedding follows it function by function.

  \<^item> A C++ \<^verbatim>\<open>float\<close> is modelled as a \<^typ>\<open>real\<close>: the arithmetic is the exact one,
    rounding, infinities and NaN are outside the model. Where the source can produce a
    NaN or divide by zero, the model has an explicit branch for it.
  \<^item> A C++ \<^verbatim>\<open>int\<close> is modelled as an \<^typ>\<open>int\<close>; the conversion
    \<^verbatim>\<open>int(f)\<close> of a float truncates toward zero, as does integer division. The map
    cell of the DDA walk is the one value that can leave the 32-bit range: there the
    wrap-around of the 32-bit addition is written out.
  \<^item> A read of \<^verbatim>\<open>worldMap[i][j]\<close> outside the array that the source does not guard
    is a fault of the model (\<open>None\<close>).
  \<^item> A pixel is a 32-bit word.
\<close>

section \<open>Constants\<close>

definition SCREEN_WIDTH :: int where "SCREEN_WIDTH = 800"
definition SCREEN_HEIGHT :: int where "SCREEN_HEIGHT = 600"
definition MAP_WIDTH :: int where "MAP_WIDTH = 24"
definition MAP_HEIGHT :: int where "MAP_HEIGHT = 24"
definition CELL_SIZE :: int where "CELL_SIZE = 64"
definition RAY_WIDTH :: int where "RAY_WIDTH = SCREEN_WIDTH div 4"
definition RAY_SCALE :: real where "RAY_SCALE = real_of_int SCREEN_WIDTH / real_of_int RAY_WIDTH"
definition ANGLE_TABLE_SIZE :: int where "ANGLE_TABLE_SIZE = 1024"

lemmas consts_defs =
  SCREEN_WIDTH_def SCREEN_HEIGHT_def MAP_WIDTH_def MAP_HEIGHT_def CELL_SIZE_def
  RAY_WIDTH_def RAY_SCALE_def ANGLE_TABLE_SIZE_def

text \<open>The conversion \<^verbatim>\<open>int(f)\<close> and the integer division of C++: both truncate toward zero.\<close>

definition c_int :: "real \<Rightarrow> int" where
  "c_int f = (if 0 \<le> f then \<lfloor>f\<rfloor> else \<lceil>f\<rceil>)"

text \<open>The value of a 32-bit \<^verbatim>\<open>int\<close> after an addition: two's complement wrap-around.\<close>

definition wrap32 :: "int \<Rightarrow> int" where
  "wrap32 i = (i + 2 ^ 31) mod 2 ^ 32 - 2 ^ 31"

definition c_div :: "int \<Rightarrow> int \<Rightarrow> int" where
  "c_div a b = sgn a * sgn b * (\<bar>a\<bar> div \<bar>b\<bar>)"

definition c_mod :: "int \<Rightarrow> int \<Rightarrow> int" where
  "c_mod a b = a - b * c_div a b"

section \<open>Data model\<close>

record Vec2 =
  vx :: real
  vy :: real

definition Vec2_length :: "Vec2 \<Rightarrow> real" where
  "Vec2_length v = sqrt (vx v * vx v + vy v * vy v)"

definition Vec2_normalize :: "Vec2 \<Rightarrow> Vec2" where
  "Vec2_normalize v =
     (let len = Vec2_length v
      in if len > 0.0001 then \<lparr>vx = vx v / len, vy = vy v / len\<rparr> else \<lparr>vx = 0, vy = 0\<rparr>)"

record Player =
  position :: Vec2
  direction :: Vec2
  plane :: Vec2
  moveSpeed :: real
  rotSpeed :: real
  health :: int
  hasWeapon :: bool

text \<open>The constructor \<^verbatim>\<open>Player()\<close>.\<close>

definition Player_init :: Player where
  "Player_init =
     \<lparr>position = \<lparr>vx = 5, vy = 5\<rparr>, direction = \<lparr>vx = -1, vy = 0\<rparr>,
      plane = \<lparr>vx = 0, vy = 0.66\<rparr>, moveSpeed = 0.1, rotSpeed = 0.05,
      health = 100, hasWeapon = True\<rparr>"

text \<open>
  The fields of \<^verbatim>\<open>Enemy\<close> carry the prefix \<open>e_\<close> where \<^verbatim>\<open>Player\<close> has a field of
  the same name.
\<close>

record Enemy =
  e_position :: Vec2
  e_speed :: real
  e_health :: int
  isDead :: bool

definition Enemy_init :: "real \<Rightarrow> real \<Rightarrow> Enemy" where
  "Enemy_init ex ey = \<lparr>e_position = \<lparr>vx = ex, vy = ey\<rparr>, e_speed = 0.03, e_health = 50, isDead = False\<rparr>"

type_synonym world_map = "int \<Rightarrow> int \<Rightarrow> int"

text \<open>An unguarded read \<^verbatim>\<open>worldMap[i][j]\<close>: outside the array it is a fault.\<close>

definition worldMap_at :: "world_map \<Rightarrow> int \<Rightarrow> int \<Rightarrow> int option" where
  "worldMap_at wm i j =
     (if 0 \<le> i \<and> i < MAP_WIDTH \<and> 0 \<le> j \<and> j < MAP_HEIGHT then Some (wm i j) else None)"

text \<open>
  The map of the constructor \<^verbatim>\<open>Game()\<close>: first the border, then up to fifty interior
  walls at the cells \<^verbatim>\<open>(rand() % 22 + 1, rand() % 22 + 1)\<close>; the draws of \<^verbatim>\<open>rand()\<close>
  are an argument. A cell within 3 of the spawn point on both axes is skipped.
\<close>

definition borderMap :: world_map where
  "borderMap i j = (if i = 0 \<or> j = 0 \<or> i = MAP_WIDTH - 1 \<or> j = MAP_HEIGHT - 1 then 1 else 0)"

fun placeWalls :: "(int \<times> int) list \<Rightarrow> world_map \<Rightarrow> world_map" where
  "placeWalls [] wm = wm"
| "placeWalls ((r1, r2) # rs) wm =
     (let i = r1 mod (MAP_WIDTH - 2) + 1; j = r2 mod (MAP_HEIGHT - 2) + 1
      in placeWalls rs
           (if \<bar>real_of_int i - vx (position Player_init)\<bar> > 3
               \<or> \<bar>real_of_int j - vy (position Player_init)\<bar> > 3
            then (\<lambda>a b. if a = i \<and> b = j then 1 else wm a b) else wm))"

definition initWorldMap :: "(int \<times> int) list \<Rightarrow> world_map" where
  "initWorldMap rs = placeWalls rs borderMap"

section \<open>Movement with collision\<close>

text \<open>\<^verbatim>\<open>Game::movePlayer(forward, strafe)\<close>, lines 333-357.\<close>

definition movePlayer :: "real \<Rightarrow> real \<Rightarrow> world_map \<Rightarrow> Player \<Rightarrow> Player option" where
  "movePlayer forward strafe wm p =
     (let d = direction p; ms = moveSpeed p;
          nx0 = vx (position p); ny0 = vy (position p);
          nx1 = (if forward \<noteq> 0 then nx0 + vx d * forward * ms else nx0);
          ny1 = (if forward \<noteq> 0 then ny0 + vy d * forward * ms else ny0);
          nx = (if strafe \<noteq> 0 then nx1 + vy d * strafe * ms else nx1);
          ny = (if strafe \<noteq> 0 then ny1 + - vx d * strafe * ms else ny1);
          wallBuffer = 0.1;
          off = (if forward > 0 then wallBuffer else - wallBuffer)
      in case worldMap_at wm (c_int (nx + off)) (c_int (vy (position p))) of
           None \<Rightarrow> None
         | Some c1 \<Rightarrow>
             let p1 = (if c1 = 0 then p\<lparr>position := (position p)\<lparr>vx := nx\<rparr>\<rparr> else p)
             in case worldMap_at wm (c_int (vx (position p1))) (c_int (ny + off)) of
                  None \<Rightarrow> None
                | Some c2 \<Rightarrow>
                    Some (if c2 = 0 then p1\<lparr>position := (position p1)\<lparr>vy := ny\<rparr>\<rparr> else p1))"

text \<open>\<^verbatim>\<open>Enemy::update(player, worldMap)\<close>, lines 119-138.\<close>

definition Enemy_update :: "Player \<Rightarrow> world_map \<Rightarrow> Enemy \<Rightarrow> Enemy option" where
  "Enemy_update p wm e =
     (if isDead e then Some e
      else
        let toPlayer = \<lparr>vx = vx (position p) - vx (e_position e),
                        vy = vy (position p) - vy (e_position e)\<rparr>;
            distance = Vec2_length toPlayer
        in if distance > 0.5 then
             let moveDir = Vec2_normalize toPlayer;
                 nx = vx (e_position e) + vx moveDir * e_speed e;
                 ny = vy (e_position e) + vy moveDir * e_speed e
             in case worldMap_at wm (c_int nx) (c_int (vy (e_position e))) of
                  None \<Rightarrow> None
                | Some c1 \<Rightarrow>
                    let e1 = (if c1 = 0 then e\<lparr>e_position := (e_position e)\<lparr>vx := nx\<rparr>\<rparr> else e)
                    in case worldMap_at wm (c_int (vx (e_position e1))) (c_int ny) of
                         None \<Rightarrow> None
                       | Some c2 \<Rightarrow>
                           Some (if c2 = 0 then e1\<lparr>e_position := (e_position e1)\<lparr>vy := ny\<rparr>\<rparr>
                                 else e1)
           else Some e)"

text \<open>The cell that covers a continuous position, and whether it is solid.\<close>

definition cell_of :: "Vec2 \<Rightarrow> int \<times> int" where
  "cell_of v = (c_int (vx v), c_int (vy v))"

definition in_solid :: "world_map \<Rightarrow> Vec2 \<Rightarrow> bool" where
  "in_solid wm v = (case cell_of v of (i, j) \<Rightarrow> wm i j \<ge> 1)"

section \<open>Rotation with the trigonometric tables\<close>

text \<open>
  \<^verbatim>\<open>initTrigTables\<close> fills \<^verbatim>\<open>sinTable[i]\<close> and \<^verbatim>\<open>cosTable[i]\<close> for \<open>0 \<le> i < 1024\<close>;
  \<^verbatim>\<open>fastSin\<close> and \<^verbatim>\<open>fastCos\<close> (lines 58-68) read them at the same index.
\<close>

definition sinTable :: "int \<Rightarrow> real" where
  "sinTable i = sin (2 * pi * real_of_int i / real_of_int ANGLE_TABLE_SIZE)"

definition cosTable :: "int \<Rightarrow> real" where
  "cosTable i = cos (2 * pi * real_of_int i / real_of_int ANGLE_TABLE_SIZE)"

definition angle_index :: "real \<Rightarrow> int" where
  "angle_index angle =
     (let index = c_mod (c_int (angle * real_of_int ANGLE_TABLE_SIZE / (2 * pi))) ANGLE_TABLE_SIZE
      in if index < 0 then index + ANGLE_TABLE_SIZE else index)"

definition fastSin :: "real \<Rightarrow> real" where
  "fastSin angle = sinTable (angle_index angle)"

definition fastCos :: "real \<Rightarrow> real" where
  "fastCos angle = cosTable (angle_index angle)"

text \<open>\<^verbatim>\<open>Player::rotate(angle)\<close>, lines 94-106.\<close>

definition Player_rotate :: "real \<Rightarrow> Player \<Rightarrow> Player" where
  "Player_rotate angle p =
     (let cosAngle = fastCos angle; sinAngle = fastSin angle;
          d = direction p; pl = plane p
      in p\<lparr>direction := \<lparr>vx = vx d * cosAngle - vy d * sinAngle,
                          vy = vx d * sinAngle + vy d * cosAngle\<rparr>,
            plane := \<lparr>vx = vx pl * cosAngle - vy pl * sinAngle,
                      vy = vx pl * sinAngle + vy pl * cosAngle\<rparr>\<rparr>)"

definition rotations :: "real list \<Rightarrow> Player \<Rightarrow> Player" where
  "rotations angles p = foldl (\<lambda>q a. Player_rotate a q) p angles"

definition dot :: "Vec2 \<Rightarrow> Vec2 \<Rightarrow> real" where
  "dot u v = vx u * vx v + vy u * vy v"

definition cross :: "Vec2 \<Rightarrow> Vec2 \<Rightarrow> real" where
  "cross u v = vx u * vy v - vy u * vx v"

text \<open>The angle between two vectors, and the field of view that direction and plane span.\<close>

definition angle_between :: "Vec2 \<Rightarrow> Vec2 \<Rightarrow> real" where
  "angle_between u v = arccos (dot u v / (Vec2_length u * Vec2_length v))"

definition field_of_view :: "Player \<Rightarrow> real" where
  "field_of_view p = 2 * arctan (Vec2_length (plane p) / Vec2_length (direction p))"

section \<open>Weapon fire\<close>

text \<open>
  The test of \<^verbatim>\<open>Game::shootWeapon\<close> (lines 364-377) on one enemy. In the source a
  zero distance makes the normalised vector NaN, and a dot product outside \<open>[-1, 1]\<close>
  makes \<^verbatim>\<open>acos\<close> return NaN; a comparison with NaN is false, so the enemy is not hit.
\<close>

definition inShootingArc :: "Player \<Rightarrow> Enemy \<Rightarrow> bool" where
  "inShootingArc p e =
     (let tx = vx (e_position e) - vx (position p);
          ty = vy (e_position e) - vy (position p);
          enemyDist = Vec2_length \<lparr>vx = tx, vy = ty\<rparr>
      in if enemyDist = 0 then False
         else
           let dotProduct = vx (direction p) * (tx / enemyDist) + vy (direction p) * (ty / enemyDist)
           in if dotProduct < -1 \<or> 1 < dotProduct then False
              else arccos dotProduct < 0.26 \<and> enemyDist < 8.0)"

definition takeDamage :: "Enemy \<Rightarrow> Enemy" where
  "takeDamage e =
     (let e1 = e\<lparr>e_health := e_health e - 10\<rparr>
      in if e_health e1 \<le> 0 then e1\<lparr>isDead := True\<rparr> else e1)"

text \<open>\<^verbatim>\<open>Game::shootWeapon\<close>, lines 359-385: the loop with its \<^verbatim>\<open>continue\<close> and \<^verbatim>\<open>break\<close>.\<close>

fun shootWeapon :: "Player \<Rightarrow> Enemy list \<Rightarrow> Enemy list" where
  "shootWeapon p [] = []"
| "shootWeapon p (e # es) =
     (if isDead e then e # shootWeapon p es
      else if inShootingArc p e then takeDamage e # es
      else e # shootWeapon p es)"

section \<open>The simulation tick\<close>

text \<open>
  The state of \<^verbatim>\<open>Game\<close> that the simulation reads and writes; \<open>frameCount\<close> is the
  static local of \<^verbatim>\<open>Game::update\<close>. The input is what \<^verbatim>\<open>GetAsyncKeyState\<close> and
  \<^verbatim>\<open>GetCursorPos\<close> return during the tick.
\<close>

record Game =
  player :: Player
  enemies :: "Enemy list"
  worldMap :: world_map
  lastMousePos_x :: int
  mouseCaptured :: bool
  gameOver :: bool
  frameCount :: int

record Input =
  key_W :: bool
  key_S :: bool
  key_A :: bool
  key_D :: bool
  cursor_x :: int
  lbutton :: bool

text \<open>The enemy loop of \<^verbatim>\<open>Game::update\<close>, lines 309-318.\<close>

fun updateEnemies :: "world_map \<Rightarrow> Player \<Rightarrow> Enemy list \<Rightarrow> (Enemy list \<times> Player) option" where
  "updateEnemies wm p [] = Some ([], p)"
| "updateEnemies wm p (e # es) =
     (case Enemy_update p wm e of
        None \<Rightarrow> None
      | Some e1 \<Rightarrow>
          (let dist = Vec2_length \<lparr>vx = vx (position p) - vx (e_position e1),
                                    vy = vy (position p) - vy (e_position e1)\<rparr>;
               p1 = (if dist < 0.5 \<and> \<not> isDead e1 then p\<lparr>health := health p - 1\<rparr> else p)
           in case updateEnemies wm p1 es of
                None \<Rightarrow> None
              | Some (es1, p2) \<Rightarrow> Some (e1 # es1, p2)))"

text \<open>\<^verbatim>\<open>Game::update\<close>, lines 277-330.\<close>

definition update :: "Input \<Rightarrow> Game \<Rightarrow> Game option" where
  "update inp g =
     (if gameOver g then Some g
      else do {
        p1 \<leftarrow> (if key_W inp then movePlayer 1 0 (worldMap g) (player g) else Some (player g));
        p2 \<leftarrow> (if key_S inp then movePlayer (-1) 0 (worldMap g) p1 else Some p1);
        p3 \<leftarrow> (if key_A inp then movePlayer 0 (-1) (worldMap g) p2 else Some p2);
        p4 \<leftarrow> (if key_D inp then movePlayer 0 1 (worldMap g) p3 else Some p3);
        let p5 = (if mouseCaptured g
                  then Player_rotate (- real_of_int (cursor_x inp - lastMousePos_x g) * 0.01) p4
                  else p4);
        let fc = frameCount g + 1;
        (es1, p6) \<leftarrow> (if c_mod fc 2 = 0 then updateEnemies (worldMap g) p5 (enemies g)
                       else Some (enemies g, p5));
        let es2 = (if lbutton inp \<and> hasWeapon p6 then shootWeapon p6 es1 else es1);
        Some (g\<lparr>player := p6, enemies := es2, frameCount := fc,
                gameOver := (if health p6 \<le> 0 then True else gameOver g)\<rparr>)
      })"

text \<open>A run of ticks, one input per tick; it stops at a fault.\<close>

fun run :: "Input list \<Rightarrow> Game \<Rightarrow> Game option" where
  "run [] g = Some g"
| "run (inp # inps) g = (case update inp g of None \<Rightarrow> None | Some g1 \<Rightarrow> run inps g1)"

text \<open>The effect of one enemy, after its move, on the player (lines 313-317).\<close>

definition contact :: "Player \<Rightarrow> Enemy \<Rightarrow> Player" where
  "contact p e1 =
     (if Vec2_length \<lparr>vx = vx (position p) - vx (e_position e1),
                        vy = vy (position p) - vy (e_position e1)\<rparr> < 0.5 \<and> \<not> isDead e1
      then p\<lparr>health := health p - 1\<rparr> else p)"

definition living :: "Enemy list \<Rightarrow> nat" where
  "living es = length (filter (\<lambda>e. \<not> isDead e) es)"

section \<open>The raycasting pass\<close>

text \<open>
  One column of \<^verbatim>\<open>Game::renderScene\<close> (lines 395-490). The constants of a ray are its
  direction, the per-step distances and the step directions; the DDA loop changes the
  running distances and the map cell. The variable \<^verbatim>\<open>side\<close> has no value before the
  first pass through the loop body, so the loop returns it beside the state.
\<close>

record ray =
  rayDirX :: real
  rayDirY :: real
  deltaDistX :: real
  deltaDistY :: real
  stepX :: int
  stepY :: int

record dda_state =
  sideDistX :: real
  sideDistY :: real
  mapX :: int
  mapY :: int

text \<open>Lines 397-431: the ray of view column \<open>x\<close> and the state before the loop.\<close>

definition initRay :: "Player \<Rightarrow> int \<Rightarrow> ray \<times> dda_state" where
  "initRay p x =
     (let cameraX = 2.0 * real_of_int x / real_of_int RAY_WIDTH - 1.0;
          rdx = vx (direction p) + vx (plane p) * cameraX;
          rdy = vy (direction p) + vy (plane p) * cameraX;
          mx = c_int (vx (position p));
          my = c_int (vy (position p));
          ddx = (if rdx = 0 then 10 ^ 30 else \<bar>1.0 / rdx\<bar>);
          ddy = (if rdy = 0 then 10 ^ 30 else \<bar>1.0 / rdy\<bar>);
          sx = (if rdx < 0 then - 1 else 1);
          sdx = (if rdx < 0 then (vx (position p) - real_of_int mx) * ddx
                 else (real_of_int mx + 1.0 - vx (position p)) * ddx);
          sy = (if rdy < 0 then - 1 else 1);
          sdy = (if rdy < 0 then (vy (position p) - real_of_int my) * ddy
                 else (real_of_int my + 1.0 - vy (position p)) * ddy)
      in (\<lparr>rayDirX = rdx, rayDirY = rdy, deltaDistX = ddx, deltaDistY = ddy,
            stepX = sx, stepY = sy\<rparr>,
          \<lparr>sideDistX = sdx, sideDistY = sdy, mapX = mx, mapY = my\<rparr>))"

text \<open>Lines 439-447: the jump to the next map square, with the side it crosses.\<close>

definition dda_step :: "ray \<Rightarrow> dda_state \<Rightarrow> dda_state \<times> int" where
  "dda_step r s =
     (if sideDistX s < sideDistY s
      then (s\<lparr>sideDistX := sideDistX s + deltaDistX r,
              mapX := wrap32 (mapX s + stepX r)\<rparr>, 0)
      else (s\<lparr>sideDistY := sideDistY s + deltaDistY r,
              mapY := wrap32 (mapY s + stepY r)\<rparr>, 1))"

text \<open>Line 450: the test for a wall; the bounds are tested before the array is read.\<close>

definition wall_hit :: "world_map \<Rightarrow> dda_state \<Rightarrow> bool" where
  "wall_hit wm s \<longleftrightarrow>
     mapX s \<ge> 0 \<and> mapY s \<ge> 0 \<and> mapX s < MAP_WIDTH \<and> mapY s < MAP_HEIGHT
     \<and> wm (mapX s) (mapY s) > 0"

text \<open>
  Lines 437-453: \<^verbatim>\<open>while (hit == 0)\<close>. The loop has no bound of its own; a walk that
  never meets a wall would be the value \<open>None\<close>.
\<close>

partial_function (option) dda :: "world_map \<Rightarrow> ray \<Rightarrow> dda_state \<Rightarrow> (dda_state \<times> int) option" where
  "dda wm r s =
     (if wall_hit wm (fst (dda_step r s)) then Some (dda_step r s)
      else dda wm r (fst (dda_step r s)))"

text \<open>
  The state after \<open>n + 1\<close> passes through the loop body, and the property that the
  first \<open>n\<close> of them reach no wall and the last one does.
\<close>

fun dda_iter :: "ray \<Rightarrow> nat \<Rightarrow> dda_state \<Rightarrow> dda_state \<times> int" where
  "dda_iter r 0 s = dda_step r s"
| "dda_iter r (Suc n) s = dda_iter r n (fst (dda_step r s))"

fun first_hit :: "world_map \<Rightarrow> ray \<Rightarrow> dda_state \<Rightarrow> nat \<Rightarrow> bool" where
  "first_hit wm r s 0 \<longleftrightarrow> wall_hit wm (fst (dda_step r s))"
| "first_hit wm r s (Suc n) \<longleftrightarrow>
     \<not> wall_hit wm (fst (dda_step r s)) \<and> first_hit wm r (fst (dda_step r s)) n"

text \<open>The number of cells between a cell and the border, along the step directions.\<close>

definition border_distance :: "ray \<Rightarrow> dda_state \<Rightarrow> nat" where
  "border_distance r s =
     nat ((if stepX r = 1 then MAP_WIDTH - 1 - mapX s else mapX s)
        + (if stepY r = 1 then MAP_HEIGHT - 1 - mapY s else mapY s))"

text \<open>What a column computes from the hit (lines 455-490).\<close>

record wall_slice =
  perpWallDist :: real
  side :: int
  lineHeight :: int
  drawStart :: int
  drawEnd :: int
  texX :: int

text \<open>Lines 456-461: the distance to the wall, before the minimum is applied.\<close>

definition rawWallDist :: "ray \<Rightarrow> dda_state \<times> int \<Rightarrow> real" where
  "rawWallDist r h =
     (if snd h = 0 then sideDistX (fst h) - deltaDistX r else sideDistY (fst h) - deltaDistY r)"

text \<open>Lines 479-490: the texture column.\<close>

definition texColumn :: "Player \<Rightarrow> ray \<Rightarrow> int \<Rightarrow> real \<Rightarrow> int" where
  "texColumn p r sd wallDist =
     (let wallX0 = (if sd = 0 then vy (position p) + wallDist * rayDirY r
                    else vx (position p) + wallDist * rayDirX r);
          wallX = wallX0 - real_of_int \<lfloor>wallX0\<rfloor>;
          t0 = c_int (wallX * real_of_int CELL_SIZE);
          t1 = (if sd = 0 \<and> rayDirX r > 0 then CELL_SIZE - t0 - 1 else t0)
      in if sd = 1 \<and> rayDirY r < 0 then CELL_SIZE - t1 - 1 else t1)"

definition wallSlice :: "Player \<Rightarrow> ray \<Rightarrow> dda_state \<times> int \<Rightarrow> wall_slice" where
  "wallSlice p r h =
     (let wallDist = max (rawWallDist r h) 0.05;
          lh = min (c_int (real_of_int SCREEN_HEIGHT / wallDist)) (SCREEN_HEIGHT * 10);
          ds0 = c_div (- lh) 2 + c_div SCREEN_HEIGHT 2;
          de0 = c_div lh 2 + c_div SCREEN_HEIGHT 2
      in \<lparr>perpWallDist = wallDist, side = snd h, lineHeight = lh,
           drawStart = (if ds0 < 0 then 0 else ds0),
           drawEnd = (if de0 \<ge> SCREEN_HEIGHT then SCREEN_HEIGHT - 1 else de0),
           texX = texColumn p r (snd h) wallDist\<rparr>)"

definition castRay :: "Player \<Rightarrow> world_map \<Rightarrow> int \<Rightarrow> wall_slice option" where
  "castRay p wm x =
     (case initRay p x of (r, s) \<Rightarrow> map_option (wallSlice p r) (dda wm r s))"

text \<open>
  The depth buffer is \<^verbatim>\<open>float zBuffer[SCREEN_WIDTH]\<close>. The pass first sets every slot
  to \<^verbatim>\<open>std::numeric_limits<float>::max()\<close>, the largest finite float (lines 390-392).
\<close>

type_synonym z_buffer = "int \<Rightarrow> real"

definition FLT_MAX :: real where
  "FLT_MAX = (2 ^ 24 - 1) * 2 ^ 104"

function clearZBuffer :: "int \<Rightarrow> z_buffer \<Rightarrow> z_buffer" where
  "clearZBuffer x zb = (if x < SCREEN_WIDTH then clearZBuffer (x + 1) (zb(x := FLT_MAX)) else zb)"
  by pat_completeness auto
termination
  by (relation "measure (\<lambda>(x, zb). nat (SCREEN_WIDTH - x))") auto

text \<open>
  Lines 493-498: the screen columns of view column \<open>x\<close> take its distance. The painting
  of wall, ceiling and floor pixels in the same loop (lines 500-528) is not part of the
  model: it writes the frame buffer only, and the sprites are drawn over it afterwards.
\<close>

function storeDepth :: "int \<Rightarrow> int \<Rightarrow> real \<Rightarrow> z_buffer \<Rightarrow> z_buffer" where
  "storeDepth screenX x depth zb =
     (if real_of_int screenX < real_of_int (x + 1) * RAY_SCALE
      then (if screenX \<ge> SCREEN_WIDTH then zb
            else storeDepth (screenX + 1) x depth (zb(screenX := depth)))
      else zb)"
  by pat_completeness auto
termination
  by (relation "measure (\<lambda>(screenX, x, depth, zb). nat (SCREEN_WIDTH - screenX))") auto

function castColumns :: "Player \<Rightarrow> world_map \<Rightarrow> int \<Rightarrow> z_buffer \<Rightarrow> z_buffer option" where
  "castColumns p wm x zb =
     (if x < RAY_WIDTH
      then (case castRay p wm x of
              None \<Rightarrow> None
            | Some w \<Rightarrow>
                castColumns p wm (x + 1)
                  (storeDepth (c_int (real_of_int x * RAY_SCALE)) x (perpWallDist w) zb))
      else Some zb)"
  by pat_completeness auto
termination
  by (relation "measure (\<lambda>(p, wm, x, zb). nat (RAY_WIDTH - x))") auto

declare clearZBuffer.simps [simp del] storeDepth.simps [simp del] castColumns.simps [simp del]

text \<open>The depth buffer that \<^verbatim>\<open>renderScene\<close> hands to \<^verbatim>\<open>renderSprites\<close>.\<close>

definition renderScene_depth :: "Player \<Rightarrow> world_map \<Rightarrow> z_buffer \<Rightarrow> z_buffer option" where
  "renderScene_depth p wm zb = castColumns p wm 0 (clearZBuffer 0 zb)"

text \<open>
  The invariant of the constructor's map, and the cells inside the border.
\<close>

definition border_solid :: "world_map \<Rightarrow> bool" where
  "border_solid wm \<longleftrightarrow>
     (\<forall>i j. 0 \<le> i \<and> i < MAP_WIDTH \<and> 0 \<le> j \<and> j < MAP_HEIGHT
            \<and> (i = 0 \<or> j = 0 \<or> i = MAP_WIDTH - 1 \<or> j = MAP_HEIGHT - 1) \<longrightarrow> wm i j > 0)"

definition interior_cell :: "int \<Rightarrow> int \<Rightarrow> bool" where
  "interior_cell i j \<longleftrightarrow> 1 \<le> i \<and> i \<le> MAP_WIDTH - 2 \<and> 1 \<le> j \<and> j \<le> MAP_HEIGHT - 2"

section \<open>The sprite renderer\<close>

text \<open>
  The frame buffer is \<^verbatim>\<open>unsigned int renderBuffer[SCREEN_WIDTH * SCREEN_HEIGHT]\<close>, the
  pixel of column \<open>x\<close> and row \<open>y\<close> at index \<open>y * SCREEN_WIDTH + x\<close>. The enemy texture
  of \<^verbatim>\<open>createTextures\<close> (lines 240-253) is a disc: opaque red within 21 texels of the
  centre, half-transparent red within 32, and 0 outside.
\<close>

type_synonym frame_buffer = "int \<Rightarrow> 32 word"

definition textureEnemy :: "int \<Rightarrow> 32 word" where
  "textureEnemy k =
     (let tx = k mod CELL_SIZE; ty = k div CELL_SIZE;
          dx = real_of_int (tx - c_div CELL_SIZE 2);
          dy = real_of_int (ty - c_div CELL_SIZE 2);
          d = sqrt (dx * dx + dy * dy)
      in if d < real_of_int (c_div CELL_SIZE 3) then 0xFFFF0000
         else if d < real_of_int (c_div CELL_SIZE 2) then 0x88FF0000
         else 0)"

text \<open>
  Lines 566-572: the enemy in camera space. With a singular camera matrix the source
  divides by zero; that case is a fault of the model.
\<close>

definition spriteTransform :: "Player \<Rightarrow> Enemy \<Rightarrow> (real \<times> real) option" where
  "spriteTransform p e =
     (let spriteX = vx (e_position e) - vx (position p);
          spriteY = vy (e_position e) - vy (position p);
          det = vx (plane p) * vy (direction p) - vx (direction p) * vy (plane p)
      in if det = 0 then None
         else
           let invDet = 1.0 / det;
               transformX = invDet * (vy (direction p) * spriteX - vx (direction p) * spriteY);
               transformY = invDet * (- vy (plane p) * spriteX + vx (plane p) * spriteY)
           in Some (transformX, transformY))"

text \<open>Lines 578-604: the rectangle of a sprite on the screen.\<close>

record sprite_rect =
  transformY :: real
  spriteScreenX :: int
  spriteHeight :: int
  spriteWidth :: int
  drawStartY :: int
  drawEndY :: int
  drawStartX :: int
  drawEndX :: int

definition spriteRect :: "real \<Rightarrow> real \<Rightarrow> sprite_rect" where
  "spriteRect tX tY =
     (let ssx = c_int (real_of_int (c_div SCREEN_WIDTH 2) * (1 + tX / tY));
          h0 = \<bar>c_int (real_of_int SCREEN_HEIGHT / tY)\<bar>;
          w0 = \<bar>c_int (real_of_int SCREEN_HEIGHT / tY)\<bar>;
          h = (if h0 > SCREEN_HEIGHT * 2 then SCREEN_HEIGHT * 2 else h0);
          w = (if w0 > SCREEN_WIDTH * 2 then SCREEN_WIDTH * 2 else w0);
          sy0 = c_div (- h) 2 + c_div SCREEN_HEIGHT 2;
          ey0 = c_div h 2 + c_div SCREEN_HEIGHT 2;
          sx0 = c_div (- w) 2 + ssx;
          ex0 = c_div w 2 + ssx
      in \<lparr>transformY = tY, spriteScreenX = ssx, spriteHeight = h, spriteWidth = w,
           drawStartY = (if sy0 < 0 then 0 else sy0),
           drawEndY = (if ey0 \<ge> SCREEN_HEIGHT then SCREEN_HEIGHT - 1 else ey0),
           drawStartX = (if sx0 < 0 then 0 else sx0),
           drawEndX = (if ex0 \<ge> SCREEN_WIDTH then SCREEN_WIDTH - 1 else ex0)\<rparr>)"

text \<open>Lines 603-604: every pixel, or every other pixel of a large sprite.\<close>

definition pixelStep :: "sprite_rect \<Rightarrow> int" where
  "pixelStep sr = (if spriteHeight sr > c_div SCREEN_HEIGHT 2 then 2 else 1)"

text \<open>
  Lines 619-634: one sampled pixel. With the coarse step the texel is written to the
  pixel and to its right, lower and lower-right neighbours inside the rectangle.
\<close>

definition putPixel :: "sprite_rect \<Rightarrow> int \<Rightarrow> int \<Rightarrow> int \<Rightarrow> frame_buffer \<Rightarrow> frame_buffer" where
  "putPixel sr tX x y fb =
     (let tY = c_div ((y - drawStartY sr) * CELL_SIZE) (spriteHeight sr);
          texel = textureEnemy (tY * CELL_SIZE + tX)
      in if texel AND 0xFF000000 \<noteq> 0 then
           let fb1 = fb(y * SCREEN_WIDTH + x := texel)
           in if pixelStep sr > 1 then
                let fb2 = (if x + 1 < drawEndX sr \<and> x + 1 < SCREEN_WIDTH
                           then fb1(y * SCREEN_WIDTH + x + 1 := texel) else fb1);
                    fb3 = (if y + 1 < drawEndY sr \<and> y + 1 < SCREEN_HEIGHT
                           then fb2((y + 1) * SCREEN_WIDTH + x := texel) else fb2)
                in if x + 1 < drawEndX sr \<and> y + 1 < drawEndY sr
                      \<and> x + 1 < SCREEN_WIDTH \<and> y + 1 < SCREEN_HEIGHT
                   then fb3((y + 1) * SCREEN_WIDTH + x + 1 := texel) else fb3
              else fb1
         else fb)"

text \<open>Lines 616-635: the rows of one column.\<close>

function spriteRows :: "sprite_rect \<Rightarrow> int \<Rightarrow> int \<Rightarrow> int \<Rightarrow> frame_buffer \<Rightarrow> frame_buffer" where
  "spriteRows sr tX x y fb =
     (if y < drawEndY sr
      then spriteRows sr tX x (y + pixelStep sr)
             (if y < 0 \<or> y \<ge> SCREEN_HEIGHT then fb else putPixel sr tX x y fb)
      else fb)"
  by pat_completeness auto
termination
  by (relation "measure (\<lambda>(sr, tX, x, y, fb). nat (drawEndY sr - y))")
    (auto simp: pixelStep_def)

text \<open>
  Lines 607-636: the columns of the rectangle, with the test against the depth buffer
  at the column that the loop is at.
\<close>

function spriteColumns :: "z_buffer \<Rightarrow> sprite_rect \<Rightarrow> int \<Rightarrow> frame_buffer \<Rightarrow> frame_buffer" where
  "spriteColumns zb sr x fb =
     (if x < drawEndX sr
      then spriteColumns zb sr (x + pixelStep sr)
             (if x < 0 \<or> x \<ge> SCREEN_WIDTH then fb
              else if transformY sr > zb x then fb
              else spriteRows sr
                     (c_div ((x - (c_div (- spriteWidth sr) 2 + spriteScreenX sr)) * CELL_SIZE)
                        (spriteWidth sr))
                     x (drawStartY sr) fb)
      else fb)"
  by pat_completeness auto
termination
  by (relation "measure (\<lambda>(zb, sr, x, fb). nat (drawEndX sr - x))")
    (auto simp: pixelStep_def)

declare spriteRows.simps [simp del] spriteColumns.simps [simp del]

text \<open>Lines 559-637: one sprite of the draw loop.\<close>

definition drawSprite :: "Player \<Rightarrow> z_buffer \<Rightarrow> Enemy \<Rightarrow> frame_buffer \<Rightarrow> frame_buffer option" where
  "drawSprite p zb e fb =
     (if isDead e then Some fb
      else case spriteTransform p e of
             None \<Rightarrow> None
           | Some (tX, tY) \<Rightarrow>
               if tY \<le> 0.1 then Some fb
               else
                 let sr = spriteRect tX tY
                 in if drawEndX sr < 0 \<or> drawStartX sr \<ge> SCREEN_WIDTH then Some fb
                    else Some (spriteColumns zb sr (drawStartX sr) fb))"

text \<open>
  Lines 538-555: the living enemies within squared distance 400, far to near.
  \<^verbatim>\<open>std::sort\<close> leaves the order of two sprites at the same distance open; the model
  keeps them in list order.
\<close>

definition spriteDist :: "Player \<Rightarrow> Enemy \<Rightarrow> real" where
  "spriteDist p e =
     (let dx = vx (e_position e) - vx (position p); dy = vy (e_position e) - vy (position p)
      in dx * dx + dy * dy)"

fun insertFar :: "real \<times> Enemy \<Rightarrow> (real \<times> Enemy) list \<Rightarrow> (real \<times> Enemy) list" where
  "insertFar a [] = [a]"
| "insertFar a (b # bs) = (if fst b \<le> fst a then a # b # bs else b # insertFar a bs)"

definition spriteOrder :: "Player \<Rightarrow> Enemy list \<Rightarrow> Enemy list" where
  "spriteOrder p es =
     map snd (foldr insertFar
       (map (\<lambda>e. (spriteDist p e, e))
          (filter (\<lambda>e. \<not> (spriteDist p e > 400.0 \<or> isDead e)) es)) [])"

fun drawSprites :: "Player \<Rightarrow> z_buffer \<Rightarrow> Enemy list \<Rightarrow> frame_buffer \<Rightarrow> frame_buffer option" where
  "drawSprites p zb [] fb = Some fb"
| "drawSprites p zb (e # es) fb =
     (case drawSprite p zb e fb of None \<Rightarrow> None | Some fb1 \<Rightarrow> drawSprites p zb es fb1)"

text \<open>\<^verbatim>\<open>Game::renderSprites\<close>, lines 536-638.\<close>

definition renderSprites :: "Player \<Rightarrow> z_buffer \<Rightarrow> Enemy list \<Rightarrow> frame_buffer \<Rightarrow> frame_buffer option" where
  "renderSprites p zb es fb = drawSprites p zb (spriteOrder p es) fb"

text \<open>What holds of the player's health at the end of every tick.\<close>

definition health_inv :: "Game \<Rightarrow> bool" where
  "health_inv g \<longleftrightarrow>
     health (player g) \<le> 100
     \<and> 1 - int (length (enemies g)) \<le> health (player g)
     \<and> (\<not> gameOver g \<longrightarrow> 1 \<le> health (player g))"

section \<open>Concrete states\<close>

text \<open>States and inputs at which the results below are evaluated.\<close>

definition noInput :: Input where
  "noInput = \<lparr>key_W = False, key_S = False, key_A = False, key_D = False,
               cursor_x = 0, lbutton = False\<rparr>"

definition fireInput :: Input where
  "fireInput = noInput\<lparr>lbutton := True\<rparr>"

text \<open>
  A game at the spawn pose with health \<open>h\<close> and the enemies \<open>es\<close>, on the map
  without interior walls, one call of \<^verbatim>\<open>update\<close> before the enemies move.
\<close>

text \<open>
  A player next to the west border, facing it, in a game with no enemies; and the player
  that one step forward from there leaves.
\<close>

definition edgePlayer :: Player where
  "edgePlayer = Player_init\<lparr>position := \<lparr>vx = 1.05, vy = 5\<rparr>\<rparr>"

definition wallPlayer :: Player where
  "wallPlayer = Player_init\<lparr>position := \<lparr>vx = 0.95, vy = 5\<rparr>\<rparr>"

definition edgeGame :: Game where
  "edgeGame =
     \<lparr>player = edgePlayer, enemies = [], worldMap = borderMap,
      lastMousePos_x = 0, mouseCaptured = False, gameOver = False, frameCount = 0\<rparr>"

text \<open>
  Two poses half a cell from a border wall: one faces it in the direction of growing \<open>y\<close>,
  the other in the direction of falling \<open>y\<close>.
\<close>

definition southPlayer :: Player where
  "southPlayer = Player_init\<lparr>position := \<lparr>vx = 5.25, vy = 22.5\<rparr>,
      direction := \<lparr>vx = 0, vy = 1\<rparr>, plane := \<lparr>vx = 0.66, vy = 0\<rparr>\<rparr>"

definition northPlayer :: Player where
  "northPlayer = Player_init\<lparr>position := \<lparr>vx = 5.25, vy = 1.5\<rparr>,
      direction := \<lparr>vx = 0, vy = - 1\<rparr>, plane := \<lparr>vx = - 0.66, vy = 0\<rparr>\<rparr>"

text \<open>
  An enemy to the right of the view at camera depth 1.9835, whose sprite is 302 pixels
  wide and starts at screen column 789, and a depth buffer with a far wall (4.0) up to
  column 795 and a near wall (1.0) from column 796 on.
\<close>

definition edgeEnemy :: Enemy where
  "edgeEnemy = Enemy_init 3.0165 6.7689348875"

definition edgeDepth :: z_buffer where
  "edgeDepth x = (if x < 796 then 4 else 1)"

definition blackFrame :: frame_buffer where
  "blackFrame k = 0"

text \<open>The spawn pose with a facing vector of length 1.0000001.\<close>

definition longPlayer :: Player where
  "longPlayer = Player_init\<lparr>direction := \<lparr>vx = - 1.0000001, vy = 0\<rparr>\<rparr>"

definition zeroBuffer :: z_buffer where
  "zeroBuffer i = 0"

definition contactGame :: "int \<Rightarrow> Enemy list \<Rightarrow> Game" where
  "contactGame h es =
     \<lparr>player = Player_init\<lparr>health := h\<rparr>, enemies = es, worldMap = borderMap,
      lastMousePos_x = 0, mouseCaptured = False, gameOver = False, frameCount = 1\<rparr>"

section \<open>Collision: results\<close>

text \<open>
  An enemy, whose test has no buffer, never enters a solid cell: each axis is committed
  only if the cell of the new coordinate is free.
\<close>

lemma Enemy_update_stays_free:
  assumes "Enemy_update p wm e = Some e'" and "\<not> in_solid wm (e_position e)"
  shows "\<not> in_solid wm (e_position e')"
  using assms
  by (auto simp: Enemy_update_def Let_def in_solid_def cell_of_def worldMap_at_def
      split: if_splits option.splits)

text \<open>
  C2. The claim is that no tick takes the player or a living enemy into a solid cell, the
  test of each axis being offset by the wall buffer in the direction of travel. The code
  takes the sign of the buffer from \<^verbatim>\<open>forward > 0\<close>, not from the direction of travel
  on the axis. A player at \<open>(1.05, 5)\<close> facing \<open>(-1, 0)\<close> (the spawn direction) who moves
  forward has the cell of \<open>0.95 + 0.1\<close> tested, which is its own free cell, and is moved
  to \<open>(0.95, 5)\<close>, inside the solid border cell \<open>(0, 5)\<close>; a tick with the key W down
  does this.
\<close>

theorem movePlayer_enters_wall:
  "movePlayer 1 0 borderMap edgePlayer = Some wallPlayer
   \<and> update (noInput\<lparr>key_W := True\<rparr>) edgeGame
       = Some (edgeGame\<lparr>player := wallPlayer, frameCount := 1\<rparr>)
   \<and> \<not> in_solid borderMap (position edgePlayer)
   \<and> in_solid borderMap (position wallPlayer)"
proof -
  have m: "movePlayer 1 0 borderMap edgePlayer = Some wallPlayer"
    by (simp add: movePlayer_def edgePlayer_def wallPlayer_def Player_init_def worldMap_at_def
        borderMap_def c_int_def consts_defs)
  have "update (noInput\<lparr>key_W := True\<rparr>) edgeGame
       = Some (edgeGame\<lparr>player := wallPlayer, frameCount := 1\<rparr>)"
    by (simp add: update_def noInput_def edgeGame_def m c_mod_def c_div_def)
      (simp add: wallPlayer_def Player_init_def)
  with m show ?thesis
    by (simp add: edgePlayer_def wallPlayer_def Player_init_def borderMap_def c_int_def
        in_solid_def cell_of_def consts_defs)
qed

section \<open>Rotation: results\<close>

lemma rot_norm:
  fixes a b c s :: real
  assumes "s * s + c * c = 1"
  shows "(a * c - b * s) * (a * c - b * s) + (a * s + b * c) * (a * s + b * c) = a * a + b * b"
proof -
  have "(a * c - b * s) * (a * c - b * s) + (a * s + b * c) * (a * s + b * c)
        = (a * a + b * b) * (s * s + c * c)"
    by (simp add: algebra_simps)
  with assms show ?thesis by simp
qed

lemma rot_dot:
  fixes a b c s u v :: real
  assumes "s * s + c * c = 1"
  shows "(a * c - b * s) * (u * c - v * s) + (a * s + b * c) * (u * s + v * c) = a * u + b * v"
proof -
  have "(a * c - b * s) * (u * c - v * s) + (a * s + b * c) * (u * s + v * c)
        = (a * u + b * v) * (s * s + c * c)"
    by (simp add: algebra_simps)
  with assms show ?thesis by simp
qed

lemma rot_cross:
  fixes a b c s u v :: real
  assumes "s * s + c * c = 1"
  shows "(a * c - b * s) * (u * s + v * c) - (a * s + b * c) * (u * c - v * s) = a * v - b * u"
proof -
  have "(a * c - b * s) * (u * s + v * c) - (a * s + b * c) * (u * c - v * s)
        = (a * v - b * u) * (s * s + c * c)"
    by (simp add: algebra_simps)
  with assms show ?thesis by simp
qed

text \<open>Both tables are read at the same index, so the pair is a point of the unit circle.\<close>

lemma table_unit: "fastSin a * fastSin a + fastCos a * fastCos a = 1"
  by (simp add: fastSin_def fastCos_def sinTable_def cosTable_def power2_eq_square[symmetric])

lemma c_mod_nonneg: "0 \<le> a \<Longrightarrow> 0 < b \<Longrightarrow> c_mod a b = a mod b"
  by (cases "a = 0") (simp_all add: c_mod_def c_div_def minus_mult_div_eq_mod)

lemma c_mod_neg: "a < 0 \<Longrightarrow> 0 < b \<Longrightarrow> c_mod a b = - ((- a) mod b)"
  by (simp add: c_mod_def c_div_def algebra_simps minus_mult_div_eq_mod[symmetric])

lemma c_mod_bounds: "0 < b \<Longrightarrow> - b < c_mod a b \<and> c_mod a b < b"
proof (cases "0 \<le> a")
  case True
  assume "0 < b"
  with True show ?thesis by (simp add: c_mod_nonneg) (smt (verit) pos_mod_sign)
next
  case False
  assume b: "0 < b"
  from b have "0 \<le> (- a) mod b" "(- a) mod b < b" by simp_all
  with False b show ?thesis by (simp add: c_mod_neg)
qed

text \<open>The index that \<^verbatim>\<open>fastSin\<close> and \<^verbatim>\<open>fastCos\<close> compute is inside the tables.\<close>

lemma angle_index_range: "0 \<le> angle_index a \<and> angle_index a < ANGLE_TABLE_SIZE"
  using c_mod_bounds[of ANGLE_TABLE_SIZE "c_int (a * real_of_int ANGLE_TABLE_SIZE / (2 * pi))"]
  by (auto simp: angle_index_def Let_def ANGLE_TABLE_SIZE_def)

lemma rotate_direction_length:
  "Vec2_length (direction (Player_rotate a p)) = Vec2_length (direction p)"
  by (simp add: Player_rotate_def Vec2_length_def Let_def rot_norm[OF table_unit])

lemma rotate_plane_length:
  "Vec2_length (plane (Player_rotate a p)) = Vec2_length (plane p)"
  by (simp add: Player_rotate_def Vec2_length_def Let_def rot_norm[OF table_unit])

lemma rotate_dot:
  "dot (direction (Player_rotate a p)) (plane (Player_rotate a p)) = dot (direction p) (plane p)"
  by (simp add: Player_rotate_def dot_def Let_def rot_dot[OF table_unit])

lemma rotate_cross:
  "cross (direction (Player_rotate a p)) (plane (Player_rotate a p))
     = cross (direction p) (plane p)"
  by (simp add: Player_rotate_def cross_def Let_def rot_cross[OF table_unit])

lemma rotations_Cons: "rotations (a # as) p = rotations as (Player_rotate a p)"
  by (simp add: rotations_def)

lemma rotations_preserve:
  "Vec2_length (direction (rotations as p)) = Vec2_length (direction p)
   \<and> Vec2_length (plane (rotations as p)) = Vec2_length (plane p)
   \<and> dot (direction (rotations as p)) (plane (rotations as p)) = dot (direction p) (plane p)
   \<and> cross (direction (rotations as p)) (plane (rotations as p)) = cross (direction p) (plane p)"
proof (induction as arbitrary: p)
  case Nil
  show ?case by (simp add: rotations_def)
next
  case (Cons a as)
  show ?case
    unfolding rotations_Cons
    using Cons.IH[of "Player_rotate a p"]
    by (simp add: rotate_direction_length rotate_plane_length rotate_dot rotate_cross)
qed

text \<open>
  C7. For every angle, \<^verbatim>\<open>Player::rotate\<close> keeps the length of the direction and of the
  plane vector and the angle between them (their dot and cross products), and so does any
  sequence of rotations: the field of view is constant. Over the reals this is exact; the
  table lookup turns by the quantised angle, which is a rotation all the same.
\<close>

theorem rotate_preserves_lengths_and_angle:
  "Vec2_length (direction (Player_rotate a p)) = Vec2_length (direction p)
   \<and> Vec2_length (plane (Player_rotate a p)) = Vec2_length (plane p)
   \<and> angle_between (direction (Player_rotate a p)) (plane (Player_rotate a p))
       = angle_between (direction p) (plane p)
   \<and> cross (direction (Player_rotate a p)) (plane (Player_rotate a p))
       = cross (direction p) (plane p)
   \<and> Vec2_length (direction (rotations as p)) = Vec2_length (direction p)
   \<and> Vec2_length (plane (rotations as p)) = Vec2_length (plane p)
   \<and> angle_between (direction (rotations as p)) (plane (rotations as p))
       = angle_between (direction p) (plane p)
   \<and> cross (direction (rotations as p)) (plane (rotations as p))
       = cross (direction p) (plane p)
   \<and> field_of_view (rotations as p) = field_of_view p"
  using rotations_preserve[of as p]
  by (simp add: angle_between_def field_of_view_def rotate_direction_length
      rotate_plane_length rotate_dot rotate_cross)

section \<open>Weapon fire: results\<close>

lemma shoot_none:
  "\<forall>e\<in>set es. isDead e \<or> \<not> inShootingArc p e \<Longrightarrow> shootWeapon p es = es"
  by (induction es) auto

lemma shoot_first:
  "i < length es \<Longrightarrow> \<not> isDead (es ! i) \<Longrightarrow> inShootingArc p (es ! i)
   \<Longrightarrow> \<forall>j<i. isDead (es ! j) \<or> \<not> inShootingArc p (es ! j)
   \<Longrightarrow> shootWeapon p es = es[i := takeDamage (es ! i)]"
proof (induction es arbitrary: i)
  case Nil
  then show ?case by simp
next
  case (Cons e es)
  show ?case
  proof (cases i)
    case 0
    with Cons.prems show ?thesis by simp
  next
    case (Suc k)
    from Cons.prems(4) Suc have e: "isDead e \<or> \<not> inShootingArc p e" by auto
    from Cons.prems(4) Suc have rest: "\<forall>j<k. isDead (es ! j) \<or> \<not> inShootingArc p (es ! j)"
      by auto
    from Cons.prems Suc have "shootWeapon p es = es[k := takeDamage (es ! k)]"
      using Cons.IH[of k] rest by simp
    with e Suc show ?thesis by auto
  qed
qed

lemma takeDamage_fields:
  "e_health (takeDamage e) = e_health e - 10
   \<and> isDead (takeDamage e) = (isDead e \<or> e_health e \<le> 10)
   \<and> e_position (takeDamage e) = e_position e \<and> e_speed (takeDamage e) = e_speed e"
  by (simp add: takeDamage_def Let_def)

lemma sqrt_4_25: "sqrt (4 / 25) = 2 / 5"
  by (rule real_sqrt_unique) (simp_all add: power2_eq_square)

text \<open>
  The order of the search is as the claim has it: a fire event changes at most the first
  living enemy that passes the test of the arc, and every other enemy is left as it was.
\<close>

lemma shootWeapon_first_target:
  "((\<forall>e\<in>set es. isDead e \<or> \<not> inShootingArc p e) \<longrightarrow> shootWeapon p es = es)
   \<and> (i < length es \<and> \<not> isDead (es ! i) \<and> inShootingArc p (es ! i)
        \<and> (\<forall>j<i. isDead (es ! j) \<or> \<not> inShootingArc p (es ! j))
      \<longrightarrow> shootWeapon p es = es[i := takeDamage (es ! i)]
          \<and> e_health (takeDamage (es ! i)) = e_health (es ! i) - 10
          \<and> isDead (takeDamage (es ! i)) = (e_health (es ! i) \<le> 10)
          \<and> e_position (takeDamage (es ! i)) = e_position (es ! i))"
  using shoot_none[of es p] shoot_first[of i es p] takeDamage_fields[of "es ! i"]
  by auto

lemma shootWeapon_spawn_example:
  "shootWeapon Player_init [(Enemy_init 4 5)\<lparr>isDead := True\<rparr>, Enemy_init 3 5, Enemy_init 4 5]
     = [(Enemy_init 4 5)\<lparr>isDead := True\<rparr>, (Enemy_init 3 5)\<lparr>e_health := 40\<rparr>, Enemy_init 4 5]"
  by (simp add: inShootingArc_def Player_init_def Enemy_init_def Vec2_length_def Let_def
      takeDamage_def)

text \<open>What the test of the arc gives, when it holds.\<close>

lemma inShootingArc_bounds:
  assumes "inShootingArc p e"
    and "tx = vx (e_position e) - vx (position p)"
    and "ty = vy (e_position e) - vy (position p)"
    and "d = Vec2_length \<lparr>vx = tx, vy = ty\<rparr>"
  shows "0 < d \<and> d < 8.0
     \<and> arccos (vx (direction p) * (tx / d) + vy (direction p) * (ty / d)) < 0.26"
proof -
  have "0 \<le> Vec2_length v" for v by (simp add: Vec2_length_def)
  with assms show ?thesis
    by (auto simp: inShootingArc_def Let_def order_less_le split: if_splits)
qed

lemma Vec2_length_axis: "Vec2_length \<lparr>vx = a, vy = 0\<rparr> = \<bar>a\<bar>"
  by (simp add: Vec2_length_def)

text \<open>
  C5. The claim is that the first living enemy whose angle to the facing direction is
  below 0.26 and whose distance is below 8.0 takes the damage. The code takes the arc cosine
  of the dot product of the facing vector, as long as it is, with the unit vector to the
  enemy. When the facing vector is longer than 1 by any amount, the dot product for an
  enemy straight ahead is above 1, \<^verbatim>\<open>acos\<close> returns NaN and \<^verbatim>\<open>angle < 0.26f\<close> is false.
  With the facing vector \<open>(-1.0000001, 0)\<close> the enemy at \<open>(3, 5)\<close>, at angle 0 and distance 2
  from the player at \<open>(5, 5)\<close>, is not hit; with the facing vector \<open>(-1, 0)\<close> it is.
\<close>

theorem shootWeapon_misses_straight_ahead:
  "shootWeapon longPlayer [Enemy_init 3 5] = [Enemy_init 3 5]
   \<and> \<not> isDead (Enemy_init 3 5)
   \<and> angle_between (direction longPlayer) \<lparr>vx = 3 - 5, vy = 5 - 5\<rparr> < 0.26
   \<and> Vec2_length \<lparr>vx = 3 - 5, vy = 5 - 5\<rparr> < 8.0
   \<and> position longPlayer = \<lparr>vx = 5, vy = 5\<rparr>
   \<and> shootWeapon Player_init [Enemy_init 3 5] = [(Enemy_init 3 5)\<lparr>e_health := 40\<rparr>]"
proof -
  have miss: "shootWeapon longPlayer [Enemy_init 3 5] = [Enemy_init 3 5]"
    by (simp add: inShootingArc_def longPlayer_def Player_init_def Enemy_init_def
        Vec2_length_def Let_def)
  have hit: "shootWeapon Player_init [Enemy_init 3 5] = [(Enemy_init 3 5)\<lparr>e_health := 40\<rparr>]"
    by (simp add: inShootingArc_def Player_init_def Enemy_init_def Vec2_length_def Let_def
        takeDamage_def)
  have ang: "angle_between (direction longPlayer) \<lparr>vx = 3 - 5, vy = 5 - 5\<rparr> = 0"
    by (simp add: angle_between_def dot_def longPlayer_def Player_init_def Vec2_length_axis)
  have len: "Vec2_length \<lparr>vx = 3 - 5, vy = 5 - 5\<rparr> = 2"
    by (simp add: Vec2_length_axis)
  from miss hit ang len show ?thesis
    by (simp add: Enemy_init_def longPlayer_def Player_init_def)
qed

section \<open>The simulation tick: results\<close>

lemma update_gameOver: "gameOver g \<Longrightarrow> update inp g = Some g"
  by (simp add: update_def)

lemma run_gameOver: "gameOver g \<Longrightarrow> run inps g = Some g"
  by (induction inps) (simp_all add: update_gameOver)

lemma update_sets_gameOver:
  "\<not> gameOver g \<Longrightarrow> update inp g = Some g' \<Longrightarrow> gameOver g' = (health (player g') \<le> 0)"
proof -
  assume ng: "\<not> gameOver g" and u: "update inp g = Some g'"
  from ng u obtain p6 where
    "player g' = p6" "gameOver g' = (if health p6 \<le> 0 then True else gameOver g)"
    by (auto simp: update_def Let_def split: Option.bind_splits prod.splits)
  with ng show ?thesis by simp
qed

text \<open>
  C6. A tick that starts alive ends in the game-over state exactly when the health it
  leaves is zero or less; a tick that starts in the game-over state returns the state as it
  is, and so does every run of ticks from there.
\<close>

theorem gameOver_exact_then_frozen:
  "(\<not> gameOver g \<and> update inp g = Some g' \<longrightarrow> (gameOver g' \<longleftrightarrow> health (player g') \<le> 0))
   \<and> (gameOver g \<longrightarrow> update inp g = Some g \<and> run inps g = Some g)"
  using update_sets_gameOver[of g inp g'] update_gameOver[of g inp] run_gameOver[of g inps]
  by auto

text \<open>
  One enemy at distance 0.4: from health 2 the tick ends alive with health 1, from health 1
  it ends with health 0 in the game-over state, and later ticks, with any keys, change nothing.
\<close>

theorem gameOver_exact_then_frozen_witness:
  "update noInput (contactGame 2 [Enemy_init 5.4 5])
     = Some ((contactGame 1 [Enemy_init 5.4 5])\<lparr>frameCount := 2\<rparr>)
   \<and> \<not> gameOver ((contactGame 1 [Enemy_init 5.4 5])\<lparr>frameCount := 2\<rparr>)
   \<and> update noInput (contactGame 1 [Enemy_init 5.4 5])
     = Some ((contactGame 0 [Enemy_init 5.4 5])\<lparr>frameCount := 2, gameOver := True\<rparr>)
   \<and> run [fireInput, noInput\<lparr>key_W := True\<rparr>]
        ((contactGame 0 [Enemy_init 5.4 5])\<lparr>frameCount := 2, gameOver := True\<rparr>)
     = Some ((contactGame 0 [Enemy_init 5.4 5])\<lparr>frameCount := 2, gameOver := True\<rparr>)"
  using gameOver_exact_then_frozen[of "contactGame 2 [Enemy_init 5.4 5]" noInput
      "(contactGame 1 [Enemy_init 5.4 5])\<lparr>frameCount := 2\<rparr>" "[]"]
    gameOver_exact_then_frozen[of "contactGame 1 [Enemy_init 5.4 5]" noInput
      "(contactGame 0 [Enemy_init 5.4 5])\<lparr>frameCount := 2, gameOver := True\<rparr>" "[]"]
    gameOver_exact_then_frozen[of
      "(contactGame 0 [Enemy_init 5.4 5])\<lparr>frameCount := 2, gameOver := True\<rparr>" noInput
      "(contactGame 0 [Enemy_init 5.4 5])\<lparr>frameCount := 2, gameOver := True\<rparr>"
      "[fireInput, noInput\<lparr>key_W := True\<rparr>]"]
  by (simp add: update_def noInput_def contactGame_def Player_init_def Enemy_init_def
      Enemy_update_def Vec2_length_def c_mod_def c_div_def sqrt_4_25 Let_def)

section \<open>Player health: results\<close>

lemma movePlayer_health: "movePlayer f s wm p = Some p' \<Longrightarrow> health p' = health p"
  by (auto simp: movePlayer_def Let_def split: option.splits if_splits)

lemma rotate_health: "health (Player_rotate a p) = health p"
  by (simp add: Player_rotate_def Let_def)

lemma Enemy_update_isDead: "Enemy_update p wm e = Some e' \<Longrightarrow> isDead e' = isDead e"
  by (auto simp: Enemy_update_def Let_def split: option.splits if_splits)

lemma updateEnemies_health:
  "updateEnemies wm p es = Some (es', p')
   \<Longrightarrow> health p' \<le> health p \<and> health p - int (living es) \<le> health p'"
proof (induction es arbitrary: p es' p')
  case Nil
  then show ?case by (simp add: living_def)
next
  case (Cons e es)
  from Cons.prems obtain e1 es1 p1 where
    e1: "Enemy_update p wm e = Some e1" and
    p1: "p1 = (if Vec2_length \<lparr>vx = vx (position p) - vx (e_position e1),
                                 vy = vy (position p) - vy (e_position e1)\<rparr> < 0.5 \<and> \<not> isDead e1
               then p\<lparr>health := health p - 1\<rparr> else p)" and
    rest: "updateEnemies wm p1 es = Some (es1, p')"
    by (auto simp: Let_def split: option.splits prod.splits)
  from Cons.IH[OF rest] have ih: "health p' \<le> health p1 \<and> health p1 - int (living es) \<le> health p'" .
  from Enemy_update_isDead[OF e1] have d: "isDead e1 = isDead e" .
  show ?case
  proof (cases "isDead e")
    case True
    with d p1 have "p1 = p" by simp
    with ih True show ?thesis by (simp add: living_def)
  next
    case False
    from p1 have "health p1 = health p \<or> health p1 = health p - 1" by auto
    with ih False show ?thesis by (auto simp: living_def)
  qed
qed

lemma update_health:
  "update inp g = Some g'
   \<Longrightarrow> health (player g') \<le> health (player g)
     \<and> health (player g) - int (living (enemies g)) \<le> health (player g')
     \<and> (\<not> gameOver g' \<longrightarrow> 1 \<le> health (player g'))"
proof (cases "gameOver g")
  case True
  assume "update inp g = Some g'"
  with True show ?thesis by (simp add: update_def)
next
  case False
  assume u: "update inp g = Some g'"
  from False u obtain p1 p2 p3 p4 es1 p6 where
    m1: "(if key_W inp then movePlayer 1 0 (worldMap g) (player g) else Some (player g)) = Some p1" and
    m2: "(if key_S inp then movePlayer (-1) 0 (worldMap g) p1 else Some p1) = Some p2" and
    m3: "(if key_A inp then movePlayer 0 (-1) (worldMap g) p2 else Some p2) = Some p3" and
    m4: "(if key_D inp then movePlayer 0 1 (worldMap g) p3 else Some p3) = Some p4" and
    en: "(if c_mod (frameCount g + 1) 2 = 0
          then updateEnemies (worldMap g)
                 (if mouseCaptured g
                  then Player_rotate (- real_of_int (cursor_x inp - lastMousePos_x g) * 0.01) p4
                  else p4) (enemies g)
          else Some (enemies g, if mouseCaptured g
                  then Player_rotate (- real_of_int (cursor_x inp - lastMousePos_x g) * 0.01) p4
                  else p4)) = Some (es1, p6)" and
    g': "player g' = p6" "gameOver g' = (if health p6 \<le> 0 then True else gameOver g)"
    by (auto simp: update_def Let_def split: Option.bind_splits prod.splits)
  from m1 have h1: "health p1 = health (player g)" by (auto split: if_splits dest: movePlayer_health)
  from m2 have h2: "health p2 = health p1" by (auto split: if_splits dest: movePlayer_health)
  from m3 have h3: "health p3 = health p2" by (auto split: if_splits dest: movePlayer_health)
  from m4 have h4: "health p4 = health p3" by (auto split: if_splits dest: movePlayer_health)
  from en have "health p6 \<le> health p4 \<and> health p4 - int (living (enemies g)) \<le> health p6"
    by (auto split: if_splits dest: updateEnemies_health simp: rotate_health)
  with h1 h2 h3 h4 g' show ?thesis by auto
qed



lemma living_le_length: "living es \<le> length es"
  by (simp add: living_def)

lemma shootWeapon_length: "length (shootWeapon p es) = length es"
  by (induction es) auto

lemma updateEnemies_length:
  "updateEnemies wm p es = Some (es', p') \<Longrightarrow> length es' = length es"
  by (induction es arbitrary: p es' p') (auto simp: Let_def split: option.splits prod.splits)

lemma update_length:
  assumes "update inp g = Some g'"
  shows "length (enemies g') = length (enemies g)"
proof (cases "gameOver g")
  case True
  with assms show ?thesis by (simp add: update_def)
next
  case False
  from False assms obtain p5 es1 p6 where
    en: "(if c_mod (frameCount g + 1) 2 = 0 then updateEnemies (worldMap g) p5 (enemies g)
          else Some (enemies g, p5)) = Some (es1, p6)" and
    g': "enemies g' = (if lbutton inp \<and> hasWeapon p6 then shootWeapon p6 es1 else es1)"
    by (auto simp: update_def Let_def split: Option.bind_splits prod.splits)
  from en have "length es1 = length (enemies g)"
    by (auto split: if_splits dest: updateEnemies_length)
  with g' show ?thesis by (simp add: shootWeapon_length)
qed

lemma update_health_inv:
  assumes "update inp g = Some g'" and "health_inv g"
  shows "health_inv g' \<and> health (player g') \<le> health (player g)"
proof (cases "gameOver g")
  case True
  with assms show ?thesis by (simp add: update_def)
next
  case False
  from update_health[OF assms(1)] have h:
    "health (player g') \<le> health (player g)"
    "health (player g) - int (living (enemies g)) \<le> health (player g')"
    "\<not> gameOver g' \<longrightarrow> 1 \<le> health (player g')" by simp_all
  from False assms(2) have "1 \<le> health (player g)" "health (player g) \<le> 100"
    by (simp_all add: health_inv_def)
  moreover have "int (living (enemies g)) \<le> int (length (enemies g))"
    using living_le_length[of "enemies g"] by simp
  ultimately show ?thesis
    using h update_length[OF assms(1)] by (simp add: health_inv_def)
qed

lemma run_health_inv:
  "run inps g = Some g' \<Longrightarrow> health_inv g
   \<Longrightarrow> health_inv g' \<and> health (player g') \<le> health (player g)"
proof (induction inps arbitrary: g)
  case Nil
  then show ?case by simp
next
  case (Cons inp inps)
  from Cons.prems(1) obtain g1 where u: "update inp g = Some g1" and r: "run inps g1 = Some g'"
    by (auto split: option.splits)
  from update_health_inv[OF u Cons.prems(2)] have
    i1: "health_inv g1" and l1: "health (player g1) \<le> health (player g)" by simp_all
  from Cons.IH[OF r i1] l1 show ?case by simp
qed

text \<open>
  C8, as the code has it. Health never rises and never exceeds 100, and it is at least 1
  whenever the game is not over; but nothing clamps it at zero. Each living enemy in contact
  takes 1 on the same tick, so a tick ends with health at least \<open>1 - n\<close> for \<open>n\<close>
  enemies, which can be negative from \<open>n = 2\<close> on.
\<close>

theorem health_bounds:
  assumes "run inps g = Some g'"
    and "health (player g) \<le> 100"
    and "1 - int (length (enemies g)) \<le> health (player g)"
    and "\<not> gameOver g \<longrightarrow> 1 \<le> health (player g)"
  shows "health (player g') \<le> health (player g) \<and> health (player g') \<le> 100
     \<and> 1 - int (length (enemies g')) \<le> health (player g')
     \<and> (\<not> gameOver g' \<longrightarrow> 1 \<le> health (player g'))"
  using run_health_inv[OF assms(1)] assms(2-4) by (auto simp: health_inv_def)

theorem health_bounds_witness:
  "run [noInput] (contactGame 1 [Enemy_init 5.4 5, Enemy_init 5 5.4])
     = Some ((contactGame (- 1) [Enemy_init 5.4 5, Enemy_init 5 5.4])
               \<lparr>frameCount := 2, gameOver := True\<rparr>)
   \<and> health (player (contactGame 1 [Enemy_init 5.4 5, Enemy_init 5 5.4])) \<le> 100
   \<and> 1 - int (length (enemies (contactGame 1 [Enemy_init 5.4 5, Enemy_init 5 5.4])))
       \<le> health (player ((contactGame (- 1) [Enemy_init 5.4 5, Enemy_init 5 5.4])
               \<lparr>frameCount := 2, gameOver := True\<rparr>))"
  using health_bounds[of "[noInput]" "contactGame 1 [Enemy_init 5.4 5, Enemy_init 5 5.4]"
      "(contactGame (- 1) [Enemy_init 5.4 5, Enemy_init 5 5.4])
         \<lparr>frameCount := 2, gameOver := True\<rparr>"]
  by (simp add: update_def noInput_def contactGame_def Player_init_def Enemy_init_def
      Enemy_update_def Vec2_length_def c_mod_def c_div_def sqrt_4_25 Let_def)

text \<open>
  C8 as stated fails: with health 1 and two living enemies at distance 0.4, one tick leaves
  the health at \<open>-1\<close>.
\<close>

theorem health_negative_counterexample:
  "update noInput (contactGame 1 [Enemy_init 5.4 5, Enemy_init 5 5.4])
     = Some ((contactGame (- 1) [Enemy_init 5.4 5, Enemy_init 5 5.4])
               \<lparr>frameCount := 2, gameOver := True\<rparr>)
   \<and> health (player ((contactGame (- 1) [Enemy_init 5.4 5, Enemy_init 5 5.4])
               \<lparr>frameCount := 2, gameOver := True\<rparr>)) < 0"
  by (simp add: update_def noInput_def contactGame_def Player_init_def Enemy_init_def
      Enemy_update_def Vec2_length_def c_mod_def c_div_def sqrt_4_25 Let_def)

section \<open>Dead enemies: results\<close>

lemma Enemy_update_dead: "isDead e \<Longrightarrow> Enemy_update p wm e = Some e"
  by (simp add: Enemy_update_def)

lemma updateEnemies_dead:
  "updateEnemies wm p es = Some (es', p')
   \<Longrightarrow> length es' = length es
     \<and> (\<forall>i<length es. isDead (es ! i) \<longrightarrow> es' ! i = es ! i)
     \<and> (\<forall>i<length es. isDead (es' ! i) = isDead (es ! i))"
proof (induction es arbitrary: p es' p')
  case Nil
  then show ?case by simp
next
  case (Cons e es)
  from Cons.prems obtain e1 es1 p1 where
    e1: "Enemy_update p wm e = Some e1" and
    rest: "updateEnemies wm p1 es = Some (es1, p')" and
    es': "es' = e1 # es1"
    by (auto simp: Let_def split: option.splits prod.splits)
  from Cons.IH[OF rest] have ih: "length es1 = length es"
    "\<forall>i<length es. isDead (es ! i) \<longrightarrow> es1 ! i = es ! i"
    "\<forall>i<length es. isDead (es1 ! i) = isDead (es ! i)" by simp_all
  have hd: "isDead e \<longrightarrow> e1 = e" using e1 by (auto simp: Enemy_update_dead)
  have hd2: "isDead e1 = isDead e" using e1 by (rule Enemy_update_isDead)
  show ?case
    unfolding es' using ih hd hd2 by (auto simp: nth_Cons split: nat.splits)
qed

lemma takeDamage_isDead: "isDead e \<Longrightarrow> isDead (takeDamage e)"
  by (simp add: takeDamage_def Let_def)

lemma shootWeapon_dead:
  "i < length es \<Longrightarrow> isDead (es ! i) \<Longrightarrow> shootWeapon p es ! i = es ! i"
  by (induction es arbitrary: i) (auto simp: nth_Cons split: nat.splits)

lemma shootWeapon_isDead_mono:
  "i < length es \<Longrightarrow> isDead (es ! i) \<Longrightarrow> isDead (shootWeapon p es ! i)"
  by (simp add: shootWeapon_dead)

lemma update_dead:
  assumes "update inp g = Some g'"
  shows "length (enemies g') = length (enemies g)
     \<and> (\<forall>i<length (enemies g). isDead (enemies g ! i) \<longrightarrow> enemies g' ! i = enemies g ! i)"
proof (cases "gameOver g")
  case True
  with assms show ?thesis by (simp add: update_def)
next
  case False
  from False assms obtain p5 es1 p6 where
    en: "(if c_mod (frameCount g + 1) 2 = 0 then updateEnemies (worldMap g) p5 (enemies g)
          else Some (enemies g, p5)) = Some (es1, p6)" and
    g': "enemies g' = (if lbutton inp \<and> hasWeapon p6 then shootWeapon p6 es1 else es1)"
    by (auto simp: update_def Let_def split: Option.bind_splits prod.splits)
  from en have a: "length es1 = length (enemies g)
     \<and> (\<forall>i<length (enemies g). isDead (enemies g ! i) \<longrightarrow> es1 ! i = enemies g ! i)"
    by (auto split: if_splits dest: updateEnemies_dead)
  show ?thesis
    unfolding g' using a by (auto simp: shootWeapon_length shootWeapon_dead)
qed

lemma run_dead:
  "run inps g = Some g'
   \<Longrightarrow> length (enemies g') = length (enemies g)
     \<and> (\<forall>i<length (enemies g). isDead (enemies g ! i) \<longrightarrow> enemies g' ! i = enemies g ! i)"
proof (induction inps arbitrary: g)
  case Nil
  then show ?case by simp
next
  case (Cons inp inps)
  from Cons.prems obtain g1 where u: "update inp g = Some g1" and r: "run inps g1 = Some g'"
    by (auto split: option.splits)
  from update_dead[OF u] Cons.IH[OF r] show ?case by auto
qed

lemma updateEnemies_snd_Cons:
  "map_option snd (updateEnemies wm p (e # es)) =
     (case Enemy_update p wm e of None \<Rightarrow> None
      | Some e1 \<Rightarrow> map_option snd (updateEnemies wm (contact p e1) es))"
  by (simp add: Let_def contact_def split: option.splits prod.splits)

lemma contact_dead: "isDead e \<Longrightarrow> contact p e = p"
  by (simp add: contact_def)

lemma updateEnemies_filter:
  "map_option snd (updateEnemies wm p (filter (\<lambda>e. \<not> isDead e) es))
   = map_option snd (updateEnemies wm p es)"
proof (induction es arbitrary: p)
  case Nil
  show ?case by simp
next
  case (Cons e es)
  show ?case
  proof (cases "isDead e")
    case True
    then have "map_option snd (updateEnemies wm p (e # es)) = map_option snd (updateEnemies wm p es)"
      unfolding updateEnemies_snd_Cons by (simp add: Enemy_update_dead contact_dead)
    with True Cons.IH[of p] show ?thesis by simp
  next
    case False
    then have "map_option snd (updateEnemies wm p (filter (\<lambda>e. \<not> isDead e) (e # es)))
        = map_option snd (updateEnemies wm p (e # filter (\<lambda>e. \<not> isDead e) es))"
      by simp
    also have "\<dots> = (case Enemy_update p wm e of None \<Rightarrow> None
         | Some e1 \<Rightarrow> map_option snd (updateEnemies wm (contact p e1) (filter (\<lambda>e. \<not> isDead e) es)))"
      by (rule updateEnemies_snd_Cons)
    also have "\<dots> = (case Enemy_update p wm e of None \<Rightarrow> None
         | Some e1 \<Rightarrow> map_option snd (updateEnemies wm (contact p e1) es))"
      by (simp only: Cons.IH)
    also have "\<dots> = map_option snd (updateEnemies wm p (e # es))"
      by (rule updateEnemies_snd_Cons[symmetric])
    finally show ?thesis .
  qed
qed

lemma map_option_bind:
  "map_option f (Option.bind m k) = Option.bind m (\<lambda>x. map_option f (k x))"
  by (cases m) simp_all

lemma bind_snd: "Option.bind m (\<lambda>(a, b). Some b) = map_option snd m"
  by (cases m) auto

text \<open>The player that a tick leaves, as a function of the state: the enemy list enters
  through the contact loop only.\<close>

lemma update_player:
  "map_option player (update inp g) =
     (if gameOver g then Some (player g)
      else do {
        p1 \<leftarrow> (if key_W inp then movePlayer 1 0 (worldMap g) (player g) else Some (player g));
        p2 \<leftarrow> (if key_S inp then movePlayer (-1) 0 (worldMap g) p1 else Some p1);
        p3 \<leftarrow> (if key_A inp then movePlayer 0 (-1) (worldMap g) p2 else Some p2);
        p4 \<leftarrow> (if key_D inp then movePlayer 0 1 (worldMap g) p3 else Some p3);
        let p5 = (if mouseCaptured g
                  then Player_rotate (- real_of_int (cursor_x inp - lastMousePos_x g) * 0.01) p4
                  else p4);
        (if c_mod (frameCount g + 1) 2 = 0
         then map_option snd (updateEnemies (worldMap g) p5 (enemies g))
         else Some p5) })"
  by (simp add: update_def map_option_bind Let_def split_def bind_snd[unfolded split_def]
      if_distrib[of "map_option snd"] cong: if_cong)

lemma update_no_dead_damage:
  "map_option player (update inp (g\<lparr>enemies := filter (\<lambda>e. \<not> isDead e) (enemies g)\<rparr>))
   = map_option player (update inp g)"
  unfolding update_player by (simp add: updateEnemies_filter Let_def)

text \<open>
  C10. Over any run of ticks (each with or without a fire event) the enemy list keeps its
  length and every enemy that is dead at the start is, at the end, exactly as it was:
  position, health and dead flag. A dead enemy deals no contact damage: the player that a
  tick leaves is the one it would leave with the dead enemies removed from the list.
\<close>

theorem dead_enemy_frozen:
  assumes "run inps g = Some g'"
  shows "length (enemies g') = length (enemies g)
     \<and> (\<forall>i<length (enemies g). isDead (enemies g ! i) \<longrightarrow> enemies g' ! i = enemies g ! i)
     \<and> (\<forall>i<length es. isDead (es ! i) \<longrightarrow> shootWeapon p es ! i = es ! i)
     \<and> map_option player (update inp (g\<lparr>enemies := filter (\<lambda>e. \<not> isDead e) (enemies g)\<rparr>))
         = map_option player (update inp g)"
  using run_dead[OF assms] update_no_dead_damage[of inp g] by (simp add: shootWeapon_dead)

text \<open>
  A dead enemy at distance 0.4 and a living one straight ahead at distance 0.4: a tick with
  the fire button down takes 1 health (one contact, not two), hits the living enemy, and
  leaves the dead one as it was.
\<close>

theorem dead_enemy_frozen_witness:
  "run [fireInput]
     (contactGame 5 [(Enemy_init 5.4 5)\<lparr>e_health := 0, isDead := True\<rparr>, Enemy_init 4.6 5])
   = Some ((contactGame 4 [(Enemy_init 5.4 5)\<lparr>e_health := 0, isDead := True\<rparr>,
                           (Enemy_init 4.6 5)\<lparr>e_health := 40\<rparr>])\<lparr>frameCount := 2\<rparr>)
   \<and> isDead (enemies (contactGame 5 [(Enemy_init 5.4 5)\<lparr>e_health := 0, isDead := True\<rparr>,
                                     Enemy_init 4.6 5]) ! 0)"
  using dead_enemy_frozen[of "[fireInput]"
      "contactGame 5 [(Enemy_init 5.4 5)\<lparr>e_health := 0, isDead := True\<rparr>, Enemy_init 4.6 5]"
      "(contactGame 4 [(Enemy_init 5.4 5)\<lparr>e_health := 0, isDead := True\<rparr>,
                       (Enemy_init 4.6 5)\<lparr>e_health := 40\<rparr>])\<lparr>frameCount := 2\<rparr>"
      "[]" Player_init noInput]
  by (simp add: update_def fireInput_def noInput_def contactGame_def Player_init_def
      Enemy_init_def Enemy_update_def Vec2_length_def c_mod_def c_div_def sqrt_4_25 Let_def
      inShootingArc_def takeDamage_def)

section \<open>The DDA walk: results\<close>

lemma dda_first_hit: "first_hit wm r s n \<Longrightarrow> dda wm r s = Some (dda_iter r n s)"
proof (induction n arbitrary: s)
  case 0
  then show ?case by (subst dda.simps) simp
next
  case (Suc n)
  then show ?case by (subst dda.simps) simp
qed

lemma first_hit_wall: "first_hit wm r s n \<Longrightarrow> wall_hit wm (fst (dda_iter r n s))"
  by (induction n arbitrary: s) simp_all

lemma wrap32_id: "- (2 ^ 31) \<le> i \<Longrightarrow> i < 2 ^ 31 \<Longrightarrow> wrap32 i = i"
  by (simp add: wrap32_def)

lemma dda_step_cases:
  "(fst (dda_step r s)
      = s\<lparr>sideDistX := sideDistX s + deltaDistX r, mapX := wrap32 (mapX s + stepX r)\<rparr>
      \<and> snd (dda_step r s) = 0 \<and> sideDistX s < sideDistY s)
   \<or> (fst (dda_step r s)
      = s\<lparr>sideDistY := sideDistY s + deltaDistY r, mapY := wrap32 (mapY s + stepY r)\<rparr>
      \<and> snd (dda_step r s) = 1 \<and> \<not> sideDistX s < sideDistY s)"
  by (simp add: dda_step_def)

text \<open>Inside the border a step moves one coordinate by one, without wrap-around.\<close>

lemma interior_step_cases:
  assumes "interior_cell (mapX s) (mapY s)"
    and "stepX r = 1 \<or> stepX r = - 1" and "stepY r = 1 \<or> stepY r = - 1"
  shows "(mapX (fst (dda_step r s)) = mapX s + stepX r \<and> mapY (fst (dda_step r s)) = mapY s)
     \<or> (mapX (fst (dda_step r s)) = mapX s \<and> mapY (fst (dda_step r s)) = mapY s + stepY r)"
proof -
  from assms have "wrap32 (mapX s + stepX r) = mapX s + stepX r"
    by (intro wrap32_id) (auto simp: interior_cell_def consts_defs)
  moreover from assms have "wrap32 (mapY s + stepY r) = mapY s + stepY r"
    by (intro wrap32_id) (auto simp: interior_cell_def consts_defs)
  ultimately show ?thesis using dda_step_cases[of r s] by auto
qed

lemma interior_step:
  assumes bs: "border_solid wm"
    and sx: "stepX r = 1 \<or> stepX r = - 1" and sy: "stepY r = 1 \<or> stepY r = - 1"
    and int: "interior_cell (mapX s) (mapY s)"
    and nh: "\<not> wall_hit wm (fst (dda_step r s))"
  shows "interior_cell (mapX (fst (dda_step r s))) (mapY (fst (dda_step r s)))
     \<and> border_distance r (fst (dda_step r s)) < border_distance r s"
proof -
  let ?s1 = "fst (dda_step r s)"
  note c = interior_step_cases[OF int sx sy]
  from int sx sy c have
    inb: "0 \<le> mapX ?s1 \<and> mapX ?s1 < MAP_WIDTH \<and> 0 \<le> mapY ?s1 \<and> mapY ?s1 < MAP_HEIGHT"
    by (auto simp: interior_cell_def consts_defs)
  with nh have "\<not> wm (mapX ?s1) (mapY ?s1) > 0" by (simp add: wall_hit_def)
  with bs inb have
    nb: "\<not> (mapX ?s1 = 0 \<or> mapY ?s1 = 0 \<or> mapX ?s1 = MAP_WIDTH - 1 \<or> mapY ?s1 = MAP_HEIGHT - 1)"
    unfolding border_solid_def by blast
  with inb have i1: "interior_cell (mapX ?s1) (mapY ?s1)"
    by (auto simp: interior_cell_def consts_defs)
  from int sx sy c have "border_distance r ?s1 < border_distance r s"
    by (auto simp: border_distance_def interior_cell_def consts_defs)
  with i1 show ?thesis by simp
qed

lemma interior_first_hit:
  assumes bs: "border_solid wm"
    and sx: "stepX r = 1 \<or> stepX r = - 1" and sy: "stepY r = 1 \<or> stepY r = - 1"
  shows "interior_cell (mapX s) (mapY s) \<Longrightarrow> \<exists>n. first_hit wm r s n \<and> n < border_distance r s"
proof (induction "border_distance r s" arbitrary: s rule: less_induct)
  case less
  show ?case
  proof (cases "wall_hit wm (fst (dda_step r s))")
    case True
    from less.prems sx sy have "0 < border_distance r s"
      by (auto simp: border_distance_def interior_cell_def consts_defs)
    with True have "first_hit wm r s 0 \<and> 0 < border_distance r s" by simp
    then show ?thesis ..
  next
    case False
    from interior_step[OF bs sx sy less.prems False] have
      i1: "interior_cell (mapX (fst (dda_step r s))) (mapY (fst (dda_step r s)))" and
      d1: "border_distance r (fst (dda_step r s)) < border_distance r s" by simp_all
    from less.hyps[OF d1 i1] obtain n where
      "first_hit wm r (fst (dda_step r s)) n" "n < border_distance r (fst (dda_step r s))" by blast
    with False d1 have "first_hit wm r s (Suc n) \<and> Suc n < border_distance r s" by simp
    then show ?thesis ..
  qed
qed

lemma border_distance_le:
  "interior_cell (mapX s) (mapY s) \<Longrightarrow> stepX r = 1 \<or> stepX r = - 1
   \<Longrightarrow> stepY r = 1 \<or> stepY r = - 1 \<Longrightarrow> border_distance r s \<le> 44"
  by (auto simp: border_distance_def interior_cell_def consts_defs)

lemma initRay_steps:
  "(stepX (fst (initRay p x)) = 1 \<or> stepX (fst (initRay p x)) = - 1)
   \<and> (stepY (fst (initRay p x)) = 1 \<or> stepY (fst (initRay p x)) = - 1)
   \<and> mapX (snd (initRay p x)) = c_int (vx (position p))
   \<and> mapY (snd (initRay p x)) = c_int (vy (position p))"
  by (simp add: initRay_def Let_def)

lemma border_solid_borderMap: "border_solid borderMap"
  by (simp add: border_solid_def borderMap_def)

lemma placeWalls_solid: "border_solid wm \<Longrightarrow> border_solid (placeWalls rs wm)"
proof (induction rs arbitrary: wm)
  case Nil
  then show ?case by simp
next
  case (Cons a rs)
  obtain r1 r2 where a: "a = (r1, r2)" by (cases a)
  have "border_solid (\<lambda>u v. if u = i \<and> v = j then 1 else wm u v)" for i j
    using Cons.prems by (simp add: border_solid_def)
  with Cons.prems show ?case
    unfolding a by (auto simp: Let_def intro!: Cons.IH)
qed

lemma border_solid_init: "border_solid (initWorldMap rs)"
  by (simp add: initWorldMap_def placeWalls_solid border_solid_borderMap)

lemma dda_side:
  assumes "dda wm r s = Some h"
  shows "snd h = 0 \<or> snd h = 1"
proof -
  have step: "snd h = 0 \<or> snd h = 1"
    if ih: "\<And>wm r s y. dda' wm r s = Some y \<Longrightarrow> snd y = 0 \<or> snd y = 1"
      and body: "(if wall_hit wm (fst (dda_step r s)) then Some (dda_step r s)
                  else dda' wm r (fst (dda_step r s))) = Some h"
    for dda' :: "world_map \<Rightarrow> ray \<Rightarrow> dda_state \<Rightarrow> (dda_state \<times> int) option"
      and wm r s h
    using ih body dda_step_cases[of r s] by (auto split: if_splits)
  show ?thesis
    by (rule dda.raw_induct[where P = "\<lambda>wm r s h. snd h = 0 \<or> snd h = 1", OF step assms])
qed

lemma walk_inside_border:
  assumes "border_solid wm"
    and "interior_cell (c_int (vx (position p))) (c_int (vy (position p)))"
  shows "\<exists>n. n < 44
     \<and> first_hit wm (fst (initRay p x)) (snd (initRay p x)) n
     \<and> dda wm (fst (initRay p x)) (snd (initRay p x))
         = Some (dda_iter (fst (initRay p x)) n (snd (initRay p x)))
     \<and> wall_hit wm (fst (dda_iter (fst (initRay p x)) n (snd (initRay p x))))
     \<and> castRay p wm x
         = Some (wallSlice p (fst (initRay p x)) (dda_iter (fst (initRay p x)) n (snd (initRay p x))))"
proof -
  let ?r = "fst (initRay p x)" and ?s = "snd (initRay p x)"
  from initRay_steps[of p x] have
    sx: "stepX ?r = 1 \<or> stepX ?r = - 1" and sy: "stepY ?r = 1 \<or> stepY ?r = - 1" and
    m: "mapX ?s = c_int (vx (position p))" "mapY ?s = c_int (vy (position p))" by simp_all
  from assms(2) m have int: "interior_cell (mapX ?s) (mapY ?s)" by simp
  from interior_first_hit[OF assms(1) sx sy int] obtain n where
    n: "first_hit wm ?r ?s n" "n < border_distance ?r ?s" by blast
  from border_distance_le[OF int sx sy] n(2) have "n < 44" by simp
  moreover from dda_first_hit[OF n(1)] have d: "dda wm ?r ?s = Some (dda_iter ?r n ?s)" .
  moreover from first_hit_wall[OF n(1)] have "wall_hit wm (fst (dda_iter ?r n ?s))" .
  moreover from d have "castRay p wm x = Some (wallSlice p ?r (dda_iter ?r n ?s))"
    by (simp add: castRay_def split_beta)
  ultimately show ?thesis using n(1) by blast
qed

text \<open>
  The centre ray from the spawn pose on the map without interior walls: five steps west to
  the border cell \<open>(0, 5)\<close>, whose face is at distance 4.
\<close>

lemma spawn_centre_ray:
  "castRay Player_init borderMap 100
     = Some \<lparr>perpWallDist = 4, side = 0, lineHeight = 150, drawStart = 225, drawEnd = 375,
             texX = 0\<rparr>"
proof -
  have "first_hit borderMap (fst (initRay Player_init 100)) (snd (initRay Player_init 100))
          (Suc (Suc (Suc (Suc 0))))"
    by (simp add: initRay_def Player_init_def Let_def c_int_def consts_defs dda_step_def
        wrap32_def wall_hit_def borderMap_def)
  from dda_first_hit[OF this] show ?thesis
    by (simp add: castRay_def split_beta)
     (simp add: initRay_def Player_init_def Let_def c_int_def consts_defs dda_step_def
        wrap32_def wallSlice_def rawWallDist_def texColumn_def c_div_def)
qed

text \<open>
  A walk that steps west from the cell \<open>(0, 5)\<close> with nothing to stop it: it goes down
  to the least 32-bit value, wraps to the greatest, and comes back to the grid from the
  east. Until then the map cell is outside the grid.
\<close>

lemma wrap32_add_left: "wrap32 (wrap32 a + b) = wrap32 (a + b)"
proof -
  have e1: "wrap32 a + b + 2 ^ 31 = (a + 2 ^ 31) mod 2 ^ 32 + b" by (simp add: wrap32_def)
  have e2: "((a + 2 ^ 31) mod 2 ^ 32 + b) mod 2 ^ 32 = (a + 2 ^ 31 + b) mod 2 ^ 32"
    by (rule mod_add_left_eq)
  have e3: "a + 2 ^ 31 + b = a + b + 2 ^ 31" by simp
  have "wrap32 (wrap32 a + b) = (wrap32 a + b + 2 ^ 31) mod 2 ^ 32 - 2 ^ 31"
    by (rule wrap32_def)
  also have "\<dots> = (a + b + 2 ^ 31) mod 2 ^ 32 - 2 ^ 31" by (simp only: e1 e2 e3)
  also have "\<dots> = wrap32 (a + b)" by (rule wrap32_def[symmetric])
  finally show ?thesis .
qed

lemma wrap32_diff_left: "wrap32 (wrap32 a - b) = wrap32 (a - b)"
  using wrap32_add_left[of a "- b"] by simp

lemma wrap32_west_outside:
  assumes "1 \<le> k" and "k \<le> 4294967272"
  shows "wrap32 (- k) < 0 \<or> 24 \<le> wrap32 (- k)"
proof (cases "k \<le> 2 ^ 31")
  case True
  with assms(1) have "wrap32 (- k) = - k" by (intro wrap32_id) simp_all
  with assms(1) show ?thesis by simp
next
  case False
  have "(- k + 2 ^ 31) mod 2 ^ 32 = (- k + 2 ^ 31 + 2 ^ 32) mod 2 ^ 32"
    by (rule mod_add_self2[symmetric])
  also from False assms(2) have "\<dots> = - k + 2 ^ 31 + 2 ^ 32"
    by (intro mod_pos_pos_trivial) simp_all
  finally have "wrap32 (- k) = 2 ^ 32 - k" by (simp add: wrap32_def)
  with assms(2) show ?thesis by simp
qed

lemma west_walk:
  fixes j n :: nat
  assumes "stepX r = - 1" and "deltaDistX r = 1"
    and "mapX s = wrap32 (- int j)" and "mapY s = 5"
    and "sideDistX s = 0.95 + real j" and "sideDistY s = 10 ^ 30"
    and "j + n = 4294967272"
  shows "first_hit borderMap r s n
     \<and> mapX (fst (dda_iter r n s)) = 23 \<and> mapY (fst (dda_iter r n s)) = 5
     \<and> snd (dda_iter r n s) = 0"
  using assms(3-7)
proof (induction n arbitrary: j s)
  case 0
  from "0.prems" have lt: "sideDistX s < sideDistY s" by simp
  from "0.prems" have "wrap32 (mapX s - 1) = 23"
    by (simp add: wrap32_diff_left) (simp add: wrap32_def)
  with lt assms(1,2) "0.prems" show ?case
    by (simp add: dda_step_def wall_hit_def borderMap_def consts_defs)
next
  case (Suc n)
  let ?s1 = "fst (dda_step r s)"
  from Suc.prems have "real j \<le> 4294967272" by linarith
  with Suc.prems have lt: "sideDistX s < sideDistY s" by simp
  have "- int j - 1 = - int (Suc j)" by simp
  with Suc.prems(1) have m: "wrap32 (mapX s - 1) = wrap32 (- int (Suc j))"
    by (simp only: wrap32_diff_left)
  from lt assms(1,2) m Suc.prems have
    s1: "mapX ?s1 = wrap32 (- int (Suc j))" "mapY ?s1 = 5"
        "sideDistX ?s1 = 0.95 + real (Suc j)" "sideDistY ?s1 = 10 ^ 30"
        "snd (dda_step r s) = 0"
    by (simp_all add: dda_step_def)
  from Suc.prems(5) have "1 \<le> int (Suc j)" "int (Suc j) \<le> 4294967272" by simp_all
  from wrap32_west_outside[OF this] s1(1) have nh: "\<not> wall_hit borderMap ?s1"
    by (auto simp: wall_hit_def consts_defs)
  from Suc.prems(5) have "Suc j + n = 4294967272" by simp
  from Suc.IH[OF s1(1-4) this] nh show ?case by simp
qed

text \<open>
  C3. The claim is that a ray which leaves the grid is treated as an immediate hit against
  the boundary. The test of line 450 keeps a cell outside the grid from being read, but
  leaves \<^verbatim>\<open>hit\<close> at 0 there, and the loop goes on. From \<open>(0.95, 5)\<close>, inside the grid in
  the border cell \<open>(0, 5)\<close>, the centre ray steps to the cell \<open>(-1, 5)\<close>, which is no hit;
  the walk goes on west through the whole 32-bit range and ends only at its pass number
  \<open>2 ^ 32 - 23 = 4294967273\<close>, at the east border cell \<open>(23, 5)\<close>.
\<close>

theorem dda_off_grid_is_no_hit:
  "mapX (fst (dda_step (fst (initRay wallPlayer 100)) (snd (initRay wallPlayer 100)))) = - 1
   \<and> mapY (fst (dda_step (fst (initRay wallPlayer 100)) (snd (initRay wallPlayer 100)))) = 5
   \<and> \<not> wall_hit borderMap
         (fst (dda_step (fst (initRay wallPlayer 100)) (snd (initRay wallPlayer 100))))
   \<and> dda borderMap (fst (initRay wallPlayer 100)) (snd (initRay wallPlayer 100))
       = Some (dda_iter (fst (initRay wallPlayer 100)) 4294967272 (snd (initRay wallPlayer 100)))
   \<and> mapX (fst (dda_iter (fst (initRay wallPlayer 100)) 4294967272
                 (snd (initRay wallPlayer 100)))) = 23
   \<and> mapY (fst (dda_iter (fst (initRay wallPlayer 100)) 4294967272
                 (snd (initRay wallPlayer 100)))) = 5"
proof -
  let ?r = "fst (initRay wallPlayer 100)" and ?s = "snd (initRay wallPlayer 100)"
  have r: "stepX ?r = - 1" "deltaDistX ?r = 1"
    by (simp_all add: initRay_def wallPlayer_def Player_init_def Let_def consts_defs)
  have s: "mapX ?s = wrap32 (- int 0)" "mapY ?s = 5" "sideDistX ?s = 0.95 + real 0"
    "sideDistY ?s = 10 ^ 30"
    by (simp_all add: initRay_def wallPlayer_def Player_init_def Let_def c_int_def consts_defs
        wrap32_def)
  have "(0::nat) + 4294967272 = 4294967272" by simp
  from west_walk[OF r s this] have
    w: "first_hit borderMap ?r ?s 4294967272"
       "mapX (fst (dda_iter ?r 4294967272 ?s)) = 23"
       "mapY (fst (dda_iter ?r 4294967272 ?s)) = 5" by simp_all
  have one: "mapX (fst (dda_step ?r ?s)) = - 1" "mapY (fst (dda_step ?r ?s)) = 5"
    by (simp_all add: initRay_def wallPlayer_def Player_init_def Let_def c_int_def consts_defs
        dda_step_def wrap32_def)
  then have "\<not> wall_hit borderMap (fst (dda_step ?r ?s))" by (simp add: wall_hit_def)
  with one w(2,3) dda_first_hit[OF w(1)] show ?thesis by simp
qed

section \<open>The depth buffer: results\<close>

lemma clearZBuffer_eq:
  "clearZBuffer x zb i = (if x \<le> i \<and> i < SCREEN_WIDTH then FLT_MAX else zb i)"
proof (induction x zb rule: clearZBuffer.induct)
  case (1 x zb)
  show ?case
  proof (cases "x < SCREEN_WIDTH")
    case True
    have "clearZBuffer x zb i = clearZBuffer (x + 1) (zb(x := FLT_MAX)) i"
      by (subst clearZBuffer.simps) (simp add: True)
    also have "\<dots> = (if x + 1 \<le> i \<and> i < SCREEN_WIDTH then FLT_MAX else (zb(x := FLT_MAX)) i)"
      by (rule "1.IH"[OF True])
    also have "\<dots> = (if x \<le> i \<and> i < SCREEN_WIDTH then FLT_MAX else zb i)"
      using True by auto
    finally show ?thesis .
  next
    case False
    then show ?thesis by (subst clearZBuffer.simps) auto
  qed
qed

lemma RAY_SCALE_4: "RAY_SCALE = 4"
  by (simp add: consts_defs)

lemma c_int_of_int: "c_int (real_of_int k) = k"
  by (simp add: c_int_def)

lemma storeDepth_eq:
  "storeDepth sx x d zb i =
     (if sx \<le> i \<and> i < 4 * (x + 1) \<and> i < SCREEN_WIDTH then d else zb i)"
proof (induction sx x d zb rule: storeDepth.induct)
  case (1 sx x d zb)
  have c: "(real_of_int sx < real_of_int (x + 1) * RAY_SCALE) = (sx < 4 * (x + 1))"
    unfolding RAY_SCALE_4 by linarith
  show ?case
  proof (cases "sx < 4 * (x + 1) \<and> sx < SCREEN_WIDTH")
    case True
    from True c have c1: "real_of_int sx < real_of_int (x + 1) * RAY_SCALE" by simp
    from True have c2: "\<not> SCREEN_WIDTH \<le> sx" by simp
    have "storeDepth sx x d zb i = storeDepth (sx + 1) x d (zb(sx := d)) i"
      by (subst storeDepth.simps) (simp only: c1 c2 if_True if_False)
    also have "\<dots> = (if sx + 1 \<le> i \<and> i < 4 * (x + 1) \<and> i < SCREEN_WIDTH then d
                       else (zb(sx := d)) i)"
      by (rule "1.IH"[OF c1 c2])
    also have "\<dots> = (if sx \<le> i \<and> i < 4 * (x + 1) \<and> i < SCREEN_WIDTH then d else zb i)"
      using True by auto
    finally show ?thesis .
  next
    case False
    with c show ?thesis by (subst storeDepth.simps) auto
  qed
qed

lemma castColumns_eq:
  assumes tot: "\<forall>x'. 0 \<le> x' \<and> x' < RAY_WIDTH \<longrightarrow> (\<exists>w. castRay p wm x' = Some w)"
  shows "0 \<le> x \<Longrightarrow> \<exists>zb'. castColumns p wm x zb = Some zb'
     \<and> (\<forall>i. zb' i = (if 4 * x \<le> i \<and> i < SCREEN_WIDTH
                       then perpWallDist (the (castRay p wm (i div 4))) else zb i))"
  using tot
proof (induction p wm x zb rule: castColumns.induct)
  case (1 p wm x zb)
  show ?case
  proof (cases "x < RAY_WIDTH")
    case False
    then have c: "castColumns p wm x zb = Some zb" by (subst castColumns.simps) simp
    from False "1.prems"(1) have n: "\<not> (4 * x \<le> i \<and> i < SCREEN_WIDTH)" for i
      by (auto simp: consts_defs)
    show ?thesis by (rule exI[of _ zb]) (simp add: c n)
  next
    case True
    with "1.prems" obtain w where w: "castRay p wm x = Some w" by blast
    let ?zb1 = "storeDepth (c_int (real_of_int x * RAY_SCALE)) x (perpWallDist w) zb"
    from "1.prems"(1) have x1: "0 \<le> x + 1" by simp
    from "1.IH"[OF True w x1 "1.prems"(2)] obtain zb' where
      r: "castColumns p wm (x + 1) ?zb1 = Some zb'" and
      v: "\<forall>i. zb' i = (if 4 * (x + 1) \<le> i \<and> i < SCREEN_WIDTH
                         then perpWallDist (the (castRay p wm (i div 4))) else ?zb1 i)"
      by blast
    have start: "c_int (real_of_int x * RAY_SCALE) = 4 * x"
    proof -
      have "real_of_int x * RAY_SCALE = real_of_int (4 * x)" by (simp add: RAY_SCALE_4)
      then show ?thesis by (simp only: c_int_of_int)
    qed
    from True w r have c: "castColumns p wm x zb = Some zb'"
      by (subst castColumns.simps) simp
    have "zb' i = (if 4 * x \<le> i \<and> i < SCREEN_WIDTH
                   then perpWallDist (the (castRay p wm (i div 4))) else zb i)" for i
    proof (cases "4 * x \<le> i \<and> i < 4 * (x + 1)")
      case True
      then have d: "i div 4 = x" by presburger
      from True \<open>x < RAY_WIDTH\<close> have "i < SCREEN_WIDTH" by (simp add: consts_defs)
      with True v w d show ?thesis by (simp add: start storeDepth_eq)
    next
      case False
      with v show ?thesis by (auto simp: start storeDepth_eq)
    qed
    with c show ?thesis by simp
  qed
qed


lemma castRay_perpWallDist:
  "castRay p wm x = Some w
   \<Longrightarrow> \<exists>h. dda wm (fst (initRay p x)) (snd (initRay p x)) = Some h
          \<and> perpWallDist w = max (rawWallDist (fst (initRay p x)) h) 0.05"
  by (auto simp: castRay_def split_beta wallSlice_def Let_def)

text \<open>
  C4, as the code has it. The pass first sets every slot to the largest finite float. For
  a camera inside the border of a map with a solid border the pass returns, and the slot of
  every screen column \<open>i\<close> then holds the distance that the walk of view column
  \<open>i div 4\<close> computes, with the minimum 0.05 applied.
\<close>

theorem depth_buffer_after_pass:
  assumes "border_solid wm"
    and "interior_cell (c_int (vx (position p))) (c_int (vy (position p)))"
    and "0 \<le> i" and "i < SCREEN_WIDTH"
  shows "clearZBuffer 0 zb i = FLT_MAX
     \<and> (\<exists>zb' h. renderScene_depth p wm zb = Some zb'
           \<and> dda wm (fst (initRay p (i div 4))) (snd (initRay p (i div 4))) = Some h
           \<and> zb' i = max (rawWallDist (fst (initRay p (i div 4))) h) 0.05)"
proof -
  from assms(3,4) have clr: "clearZBuffer 0 zb i = FLT_MAX" by (simp add: clearZBuffer_eq)
  have tot: "\<forall>x'. 0 \<le> x' \<and> x' < RAY_WIDTH \<longrightarrow> (\<exists>w. castRay p wm x' = Some w)"
    using walk_inside_border[OF assms(1,2)] by blast
  from castColumns_eq[OF tot, of 0 "clearZBuffer 0 zb"] obtain zb' where
    r: "renderScene_depth p wm zb = Some zb'" and
    v: "\<forall>k. zb' k = (if 4 * 0 \<le> k \<and> k < SCREEN_WIDTH
                       then perpWallDist (the (castRay p wm (k div 4))) else clearZBuffer 0 zb k)"
    unfolding renderScene_depth_def by auto
  from assms(3,4) have "0 \<le> i div 4 \<and> i div 4 < RAY_WIDTH"
    unfolding consts_defs by presburger
  with tot obtain w where w: "castRay p wm (i div 4) = Some w" by blast
  from castRay_perpWallDist[OF w] obtain h where
    h: "dda wm (fst (initRay p (i div 4))) (snd (initRay p (i div 4))) = Some h"
       "perpWallDist w = max (rawWallDist (fst (initRay p (i div 4))) h) 0.05" by blast
  from v assms(3,4) w have "zb' i = perpWallDist w" by simp
  with r h clr show ?thesis by auto
qed

text \<open>
  At the spawn pose on the map without interior walls, screen column 400 belongs to view
  column 100, whose walk ends at distance 4.
\<close>

theorem depth_buffer_after_pass_witness:
  "border_solid borderMap
   \<and> interior_cell (c_int (vx (position Player_init))) (c_int (vy (position Player_init)))
   \<and> clearZBuffer 0 zeroBuffer 400 = FLT_MAX
   \<and> map_option (\<lambda>zb'. zb' 400) (renderScene_depth Player_init borderMap zeroBuffer) = Some 4"
proof -
  have b: "border_solid borderMap" by (rule border_solid_borderMap)
  have i: "interior_cell (c_int (vx (position Player_init))) (c_int (vy (position Player_init)))"
    by (simp add: interior_cell_def Player_init_def c_int_def consts_defs)
  have "first_hit borderMap (fst (initRay Player_init 100)) (snd (initRay Player_init 100))
          (Suc (Suc (Suc (Suc 0))))"
    by (simp add: initRay_def Player_init_def Let_def c_int_def consts_defs dda_step_def wrap32_def
        wall_hit_def borderMap_def)
  from dda_first_hit[OF this] have
    d: "dda borderMap (fst (initRay Player_init 100)) (snd (initRay Player_init 100))
        = Some (\<lparr>sideDistX = 5, sideDistY = 10 ^ 30, mapX = 0, mapY = 5\<rparr>, 0)"
    by (simp add: initRay_def Player_init_def Let_def c_int_def consts_defs dda_step_def wrap32_def)
  have r: "rawWallDist (fst (initRay Player_init 100))
             (\<lparr>sideDistX = 5, sideDistY = 10 ^ 30, mapX = 0, mapY = 5\<rparr>, 0) = 4"
    by (simp add: rawWallDist_def initRay_def Player_init_def Let_def consts_defs)
  have "(400::int) div 4 = 100" by simp
  with depth_buffer_after_pass[OF b i, of 400 zeroBuffer] d r b i show ?thesis
    by (auto simp: SCREEN_WIDTH_def)
qed

text \<open>
  C4 as stated fails in its first part: the value that the pass resets a slot to is
  \<open>(2 ^ 24 - 1) * 2 ^ 104\<close>, a finite number below \<open>2 ^ 128\<close>, and not an infinity.
\<close>

theorem depth_reset_finite_counterexample:
  "clearZBuffer 0 zeroBuffer 0 = 340282346638528859811704183484516925440
   \<and> clearZBuffer 0 zeroBuffer 0 < 2 ^ 128"
  by (simp add: clearZBuffer_eq SCREEN_WIDTH_def FLT_MAX_def)

section \<open>The texture column: results\<close>

lemma frac_cell:
  "0 \<le> c_int ((f - real_of_int \<lfloor>f\<rfloor>) * real_of_int CELL_SIZE)
   \<and> c_int ((f - real_of_int \<lfloor>f\<rfloor>) * real_of_int CELL_SIZE) < CELL_SIZE"
proof -
  have f0: "0 \<le> f - real_of_int \<lfloor>f\<rfloor>" and f1: "f - real_of_int \<lfloor>f\<rfloor> < 1" by linarith+
  then have "0 \<le> (f - real_of_int \<lfloor>f\<rfloor>) * 64" "(f - real_of_int \<lfloor>f\<rfloor>) * 64 < 64" by simp_all
  then show ?thesis by (simp add: c_int_def CELL_SIZE_def floor_less_iff)
qed

lemma texColumn_eq:
  assumes "sd = 0 \<or> sd = 1"
  shows "texColumn p r sd d =
     (let wallX0 = (if sd = 0 then vy (position p) + d * rayDirY r
                    else vx (position p) + d * rayDirX r);
          t0 = c_int ((wallX0 - real_of_int \<lfloor>wallX0\<rfloor>) * real_of_int CELL_SIZE)
      in if (sd = 0 \<and> rayDirX r > 0) \<or> (sd = 1 \<and> rayDirY r < 0) then CELL_SIZE - t0 - 1 else t0)"
  using assms by (auto simp: texColumn_def Let_def)

lemma texColumn_range:
  assumes "sd = 0 \<or> sd = 1"
  shows "0 \<le> texColumn p r sd d \<and> texColumn p r sd d < CELL_SIZE"
proof -
  let ?w = "if sd = 0 then vy (position p) + d * rayDirY r else vx (position p) + d * rayDirX r"
  from frac_cell[of ?w] show ?thesis
    unfolding texColumn_eq[OF assms] Let_def by auto
qed

lemma castRay_slice:
  "castRay p wm x = Some w \<Longrightarrow>
   \<exists>h. dda wm (fst (initRay p x)) (snd (initRay p x)) = Some h
      \<and> w = wallSlice p (fst (initRay p x)) h"
  by (auto simp: castRay_def split_beta)

text \<open>
  C9, as the code has it. The texture column comes from the fractional part of the hit
  position along the axis that was not stepped, and it stays inside the texture. It is
  mirrored exactly when the hit is on side 0 and the ray goes in the positive \<open>x\<close>
  direction, or the hit is on side 1 and the ray goes in the negative \<open>y\<close> direction.
\<close>

theorem texX_mirrored_iff:
  assumes "castRay p wm x = Some w"
  shows "(side w = 0 \<or> side w = 1) \<and> 0 \<le> texX w \<and> texX w < CELL_SIZE
     \<and> texX w =
        (let r = fst (initRay p x);
             wallX0 = (if side w = 0 then vy (position p) + perpWallDist w * rayDirY r
                       else vx (position p) + perpWallDist w * rayDirX r);
             t0 = c_int ((wallX0 - real_of_int \<lfloor>wallX0\<rfloor>) * real_of_int CELL_SIZE)
         in if (side w = 0 \<and> rayDirX r > 0) \<or> (side w = 1 \<and> rayDirY r < 0)
            then CELL_SIZE - t0 - 1 else t0)"
proof -
  from castRay_slice[OF assms] obtain h where
    h: "dda wm (fst (initRay p x)) (snd (initRay p x)) = Some h" and
    w: "w = wallSlice p (fst (initRay p x)) h" by blast
  from dda_side[OF h] have sd: "snd h = 0 \<or> snd h = 1" .
  from w have f: "side w = snd h"
    "texX w = texColumn p (fst (initRay p x)) (snd h) (perpWallDist w)"
    by (simp_all add: wallSlice_def Let_def)
  from texColumn_range[OF sd] texColumn_eq[OF sd] sd f show ?thesis
    by (simp add: Let_def)
qed

text \<open>
  Facing the wall at \<open>y = 0\<close> from \<open>(5.25, 1.5)\<close>: a side-1 hit with the ray going in
  the negative \<open>y\<close> direction; the column 16 is mirrored to 47.
\<close>

theorem texX_mirrored_iff_witness:
  "castRay northPlayer borderMap 100
     = Some \<lparr>perpWallDist = 0.5, side = 1, lineHeight = 1200, drawStart = 0, drawEnd = 599,
             texX = 47\<rparr>
   \<and> rayDirY (fst (initRay northPlayer 100)) < 0"
proof -
  have "first_hit borderMap (fst (initRay northPlayer 100)) (snd (initRay northPlayer 100)) 0"
    by (simp add: initRay_def northPlayer_def Player_init_def Let_def c_int_def consts_defs
        dda_step_def wrap32_def wall_hit_def borderMap_def)
  from dda_first_hit[OF this] have
    c: "castRay northPlayer borderMap 100
     = Some \<lparr>perpWallDist = 0.5, side = 1, lineHeight = 1200, drawStart = 0, drawEnd = 599,
             texX = 47\<rparr>"
    by (simp add: castRay_def split_beta)
     (simp add: initRay_def northPlayer_def Player_init_def Let_def c_int_def consts_defs
        dda_step_def wrap32_def wallSlice_def rawWallDist_def texColumn_def c_div_def)
  have "rayDirY (fst (initRay northPlayer 100)) < 0"
    by (simp add: initRay_def northPlayer_def Player_init_def Let_def consts_defs)
  with texX_mirrored_iff[OF c] c show ?thesis by simp
qed

text \<open>
  C9 as stated fails on side 1. Facing the wall at \<open>y = 23\<close> from \<open>(5.25, 22.5)\<close> the
  ray goes in the positive direction of the hit axis, and the column is 16, not mirrored
  (the mirrored column is \<open>64 - 16 - 1 = 47\<close>).
\<close>

theorem texX_side1_positive_counterexample:
  "castRay southPlayer borderMap 100
     = Some \<lparr>perpWallDist = 0.5, side = 1, lineHeight = 1200, drawStart = 0, drawEnd = 599,
             texX = 16\<rparr>
   \<and> rayDirY (fst (initRay southPlayer 100)) > 0"
proof -
  have "first_hit borderMap (fst (initRay southPlayer 100)) (snd (initRay southPlayer 100)) 0"
    by (simp add: initRay_def southPlayer_def Player_init_def Let_def c_int_def consts_defs
        dda_step_def wrap32_def wall_hit_def borderMap_def)
  from dda_first_hit[OF this] have
    "castRay southPlayer borderMap 100
     = Some \<lparr>perpWallDist = 0.5, side = 1, lineHeight = 1200, drawStart = 0, drawEnd = 599,
             texX = 16\<rparr>"
    by (simp add: castRay_def split_beta)
     (simp add: initRay_def southPlayer_def Player_init_def Let_def c_int_def consts_defs
        dda_step_def wrap32_def wallSlice_def rawWallDist_def texColumn_def c_div_def)
  moreover have "rayDirY (fst (initRay southPlayer 100)) > 0"
    by (simp add: initRay_def southPlayer_def Player_init_def Let_def consts_defs)
  ultimately show ?thesis by simp
qed

section \<open>Sprite occlusion: results\<close>

lemma sqrt_less_iff: "0 \<le> b \<Longrightarrow> 0 \<le> a \<Longrightarrow> (sqrt a < b) = (a < b * b)"
  by (metis abs_of_nonneg real_sqrt_abs2 real_sqrt_less_iff)

lemma sqrt_int_less:
  assumes "0 \<le> b" and "0 \<le> q"
  shows "(sqrt (real_of_int q) < real_of_int b) = (q < b * b)"
proof -
  from assms have "(sqrt (real_of_int q) < real_of_int b) = (real_of_int q < real_of_int b * real_of_int b)"
    by (intro sqrt_less_iff) simp_all
  also have "\<dots> = (real_of_int q < real_of_int (b * b))" by simp
  also have "\<dots> = (q < b * b)" by (rule of_int_less_iff)
  finally show ?thesis .
qed

text \<open>The enemy texture without the square root.\<close>

lemma textureEnemy_sq:
  "textureEnemy k =
     (let q = (k mod 64 - 32) * (k mod 64 - 32) + (k div 64 - 32) * (k div 64 - 32)
      in if q < 441 then 0xFFFF0000 else if q < 1024 then 0x88FF0000 else 0)"
proof -
  let ?q = "(k mod 64 - 32) * (k mod 64 - 32) + (k div 64 - 32) * (k div 64 - 32)"
  have q: "real_of_int (k mod 64 - 32) * real_of_int (k mod 64 - 32)
         + real_of_int (k div 64 - 32) * real_of_int (k div 64 - 32) = real_of_int ?q"
    by simp
  have nn: "0 \<le> ?q" by simp
  have a: "(sqrt (real_of_int ?q) < real_of_int 21) = (?q < 21 * 21)"
    by (rule sqrt_int_less[OF _ nn]) simp
  have b: "(sqrt (real_of_int ?q) < real_of_int 32) = (?q < 32 * 32)"
    by (rule sqrt_int_less[OF _ nn]) simp
  have c: "c_div 64 2 = 32" "c_div 64 3 = 21" by (simp_all add: c_div_def)
  show ?thesis
    unfolding textureEnemy_def Let_def CELL_SIZE_def c q
    using a b by simp
qed

lemma edgeEnemy_transform: "spriteTransform Player_init edgeEnemy = Some (2.680204375, 1.9835)"
  by (simp add: spriteTransform_def Player_init_def edgeEnemy_def Enemy_init_def Let_def)

lemma edgeEnemy_rect: "spriteRect 2.680204375 1.9835 = \<lparr>transformY = 1.9835, spriteScreenX = 940, spriteHeight = 302, spriteWidth = 302,
   drawStartY = 149, drawEndY = 451, drawStartX = 789, drawEndX = 799\<rparr>"
  by (simp add: spriteRect_def Let_def c_int_def c_div_def consts_defs)

lemma spriteRows_step:
  "y < drawEndY sr \<Longrightarrow> spriteRows sr tX x y fb =
     spriteRows sr tX x (y + pixelStep sr)
       (if y < 0 \<or> y \<ge> SCREEN_HEIGHT then fb else putPixel sr tX x y fb)"
  by (subst spriteRows.simps) simp

lemma spriteRows_stop: "\<not> y < drawEndY sr \<Longrightarrow> spriteRows sr tX x y fb = fb"
  by (subst spriteRows.simps) simp

lemma spriteColumns_step:
  "x < drawEndX sr \<Longrightarrow> spriteColumns zb sr x fb =
     spriteColumns zb sr (x + pixelStep sr)
             (if x < 0 \<or> x \<ge> SCREEN_WIDTH then fb
              else if transformY sr > zb x then fb
              else spriteRows sr
                     (c_div ((x - (c_div (- spriteWidth sr) 2 + spriteScreenX sr)) * CELL_SIZE)
                        (spriteWidth sr))
                     x (drawStartY sr) fb)"
  by (subst spriteColumns.simps) simp

lemma spriteColumns_stop: "\<not> x < drawEndX sr \<Longrightarrow> spriteColumns zb sr x fb = fb"
  by (subst spriteColumns.simps) simp

lemma c_div_pos: "0 \<le> a \<Longrightarrow> 0 < b \<Longrightarrow> c_div a b = a div b"
  by (cases "a = 0") (simp_all add: c_div_def)

text \<open>
  With the step 1 there is no backfill, and the occlusion holds: a sprite whose depth
  exceeds the stored wall depth of a column changes no pixel of that column.
\<close>

lemma putPixel_fine_other:
  "pixelStep sr = 1 \<Longrightarrow> k \<noteq> y * SCREEN_WIDTH + x \<Longrightarrow> putPixel sr tX x y fb k = fb k"
  by (simp add: putPixel_def Let_def)

lemma spriteRows_fine_other:
  assumes "pixelStep sr = 1" and "0 \<le> x" and "x < SCREEN_WIDTH" and "k mod SCREEN_WIDTH \<noteq> x"
  shows "spriteRows sr tX x y fb k = fb k"
  using assms
proof (induction sr tX x y fb rule: spriteRows.induct)
  case (1 sr tX x y fb)
  show ?case
  proof (cases "y < drawEndY sr")
    case False
    then show ?thesis by (simp add: spriteRows_stop)
  next
    case True
    from "1.prems" have "k \<noteq> y * SCREEN_WIDTH + x"
      by (auto simp: SCREEN_WIDTH_def)
    with "1.prems"(1) have p: "putPixel sr tX x y fb k = fb k" by (rule putPixel_fine_other)
    from "1.IH"[OF True "1.prems"] p True show ?thesis
      by (simp add: spriteRows_step)
  qed
qed

lemma spriteColumns_fine_occluded:
  assumes "pixelStep sr = 1" and "transformY sr > zb c" and "k mod SCREEN_WIDTH = c"
  shows "spriteColumns zb sr x fb k = fb k"
  using assms
proof (induction zb sr x fb rule: spriteColumns.induct)
  case (1 zb sr x fb)
  show ?case
  proof (cases "x < drawEndX sr")
    case False
    then show ?thesis by (simp add: spriteColumns_stop)
  next
    case True
    let ?tX = "c_div ((x - (c_div (- spriteWidth sr) 2 + spriteScreenX sr)) * CELL_SIZE)
                 (spriteWidth sr)"
    let ?fb1 = "if x < 0 \<or> x \<ge> SCREEN_WIDTH then fb
                else if transformY sr > zb x then fb
                else spriteRows sr ?tX x (drawStartY sr) fb"
    have "?fb1 k = fb k"
    proof (cases "x < 0 \<or> x \<ge> SCREEN_WIDTH \<or> transformY sr > zb x")
      case True
      then show ?thesis by auto
    next
      case False
      with "1.prems"(2) have "x \<noteq> c" by auto
      with "1.prems"(3) have "k mod SCREEN_WIDTH \<noteq> x" by simp
      with False "1.prems"(1) have "spriteRows sr ?tX x (drawStartY sr) fb k = fb k"
        by (intro spriteRows_fine_other) auto
      with False show ?thesis by auto
    qed
    with "1.IH"[OF True "1.prems"] True show ?thesis
      by (simp add: spriteColumns_step)
  qed
qed

lemma drawSprite_fine_occluded:
  assumes "drawSprite p zb e fb = Some fb'" and "spriteTransform p e = Some (tX, tY)"
    and "pixelStep (spriteRect tX tY) = 1" and "tY > zb c" and "k mod SCREEN_WIDTH = c"
  shows "fb' k = fb k"
proof -
  have t: "transformY (spriteRect tX tY) = tY" by (simp add: spriteRect_def Let_def)
  from assms(3,4,5) have
    "spriteColumns zb (spriteRect tX tY) (drawStartX (spriteRect tX tY)) fb k = fb k"
    by (intro spriteColumns_fine_occluded) (simp_all add: t)
  with assms(1,2) show ?thesis
    by (auto simp: drawSprite_def Let_def split: if_splits)
qed

text \<open>
  C1. The claim is that a sprite whose depth exceeds the wall depth of a column writes no
  pixel in that column, the backfill writes included. The loop tests the depth at the
  columns it samples only. With the coarse step it samples the columns 789, 791, 793, 795
  and 797 of this sprite; at 795 the wall is behind the sprite, the test passes, and the
  backfill writes the texel to column 796 as well, where the wall (1.0) is in front of the
  sprite (1.9835): the pixel of column 796 and row 301 changes from 0 to the texel.
\<close>

theorem backfill_ignores_depth:
  "spriteTransform Player_init edgeEnemy = Some (2.680204375, 1.9835)
   \<and> edgeDepth 796 < 1.9835
   \<and> blackFrame (301 * 800 + 796) = 0
   \<and> map_option (\<lambda>fb. fb (301 * 800 + 796))
         (renderSprites Player_init edgeDepth [edgeEnemy] blackFrame) = Some 0x88FF0000"
proof -
  let ?sr = "\<lparr>transformY = 1.9835, spriteScreenX = 940, spriteHeight = 302, spriteWidth = 302,
              drawStartY = 149, drawEndY = 451, drawStartX = 789, drawEndX = 799\<rparr>"
  have cols: "spriteColumns edgeDepth ?sr 789 blackFrame (301 * 800 + 796) = 0x88FF0000"
    by (simp add: spriteColumns_step spriteColumns_stop spriteRows_step spriteRows_stop
        pixelStep_def putPixel_def textureEnemy_sq c_div_pos c_div_def consts_defs Let_def
        edgeDepth_def blackFrame_def)
  have nd: "\<not> isDead edgeEnemy" by (simp add: edgeEnemy_def Enemy_init_def)
  have ds: "drawSprite Player_init edgeDepth edgeEnemy blackFrame
            = Some (spriteColumns edgeDepth ?sr 789 blackFrame)"
    by (simp add: drawSprite_def nd edgeEnemy_transform[simplified] edgeEnemy_rect[simplified] consts_defs)
  have so: "spriteOrder Player_init [edgeEnemy] = [edgeEnemy]"
    by (simp add: spriteOrder_def spriteDist_def nd Let_def)
      (simp add: edgeEnemy_def Enemy_init_def Player_init_def)
  have "map_option (\<lambda>fb. fb (301 * 800 + 796))
         (renderSprites Player_init edgeDepth [edgeEnemy] blackFrame) = Some 0x88FF0000"
    by (simp add: renderSprites_def so ds cols[simplified])
  then show ?thesis
    by (simp add: edgeEnemy_transform edgeDepth_def blackFrame_def)
qed

end
